theory Spec2Isabelle
  imports Main "HOL-Library.Word" "HOL-Library.Monad_Syntax"
begin

unbundle bit_operations_syntax

section \<open>Faults\<close>

text \<open>
  A Go panic is a value.  In the transaction engine the panics are the dereference of a
  nil pointer and an index outside a slice; every function there that can panic returns
  \<open>fault + 'a\<close>, with \<open>Inl\<close> the panic.
\<close>

datatype fault = NilDeref | IndexOutOfRange

type_synonym 'a result = "fault + 'a"

section \<open>The transaction engine (package file with \<open>TrxContext\<close>)\<close>

subsection \<open>Data\<close>

text \<open>
  The status constants \<open>unused = 0\<close>, \<open>uncommit = 1\<close>, \<open>commit = 2\<close>, \<open>rollback = 3\<close>.
  The \<open>int64\<close> identifiers and counters are modelled as \<open>int\<close>: they start at 0
  and grow by one per call, so wrap-around would need \<open>2^63\<close> calls.
\<close>

datatype trx_status = unused | uncommit | commit | rollback

text \<open>
  \<open>type Trx struct { trxID; status; view *readView }\<close> and
  \<open>type readView struct { lowLimitID; upLimitID; trxIDs []Trx }\<close>.
  A read view is written once, by \<open>createReadView\<close>, and no code assigns to its
  fields afterwards, so the pointer \<open>view\<close> is modelled by the value it points to
  (\<open>None\<close> is nil).  The slice \<open>trxIDs\<close> of a view holds copies of the pool
  entries.
\<close>

datatype Trx = Trx (trxID: int) (status: trx_status) (view: "readView option")
  and readView = ReadView (lowLimitID: int) (upLimitID: int) (view_trxIDs: "Trx list")

text \<open>
  \<open>type record struct { rowID; trxID; rollPtr *record; data []byte }\<close>.
  Every \<open>rollPtr\<close> that is not nil comes from \<open>allocteUndo\<close>, which returns
  \<open>&context.undo[i]\<close>: the pointer is modelled by the index \<open>i\<close> into the undo pool,
  so that two pointers to the same undo entry are the same index.
\<close>

record record_t =
  rowID :: int
  rec_trxID :: int
  rollPtr :: "nat option"
  rec_data :: string

record TrxContext =
  trxIDs :: "Trx list"
  dataPool :: "record_t list"
  undo :: "record_t list"
  trxCounter :: int
  rowCounter :: int

definition zero_record :: record_t where
  "zero_record = \<lparr>rowID = 0, rec_trxID = 0, rollPtr = None, rec_data = []\<rparr>"

definition CreateTrxContext :: TrxContext where
  "CreateTrxContext =
     \<lparr>trxIDs = replicate 1024 (Trx 0 unused None),
      dataPool = replicate 1024 zero_record,
      undo = replicate 1024 zero_record,
      trxCounter = 0,
      rowCounter = 0\<rparr>"

subsection \<open>Pool scans\<close>

text \<open>
  The four scans have the shape
  \<open>for i := 0; i < len(context.trxIDs); i++ { if P(i) { return &pool[i] } }; return nil\<close>.
  \<open>first_index p i k\<close> runs \<open>k\<close> more iterations from index \<open>i\<close>; the test \<open>p\<close>
  may panic (an index outside the pool it reads).
\<close>

fun first_index :: "(nat \<Rightarrow> bool result) \<Rightarrow> nat \<Rightarrow> nat \<Rightarrow> nat option result" where
  "first_index p i 0 = Inr None"
| "first_index p i (Suc k) =
     (case p i of
        Inl e \<Rightarrow> Inl e
      | Inr True \<Rightarrow> Inr (Some i)
      | Inr False \<Rightarrow> first_index p (Suc i) k)"

definition rowID_is :: "record_t list \<Rightarrow> int \<Rightarrow> nat \<Rightarrow> bool result" where
  "rowID_is pool v i =
     (if i < length pool then Inr (rowID (pool ! i) = v) else Inl IndexOutOfRange)"

definition AllocteTrx :: "TrxContext \<Rightarrow> nat option" where
  "AllocteTrx context =
     (case first_index (\<lambda>i. Inr (status (trxIDs context ! i) = unused)) 0
             (length (trxIDs context)) of
        Inr r \<Rightarrow> r
      | Inl e \<Rightarrow> None)"

text \<open>All of the record scans are bounded by \<open>len(context.trxIDs)\<close>, as in the source.\<close>

definition allocteUndo :: "TrxContext \<Rightarrow> nat option result" where
  "allocteUndo context =
     first_index (rowID_is (undo context) 0) 0 (length (trxIDs context))"

definition allocteRecord :: "TrxContext \<Rightarrow> nat option result" where
  "allocteRecord context =
     first_index (rowID_is (dataPool context) 0) 0 (length (trxIDs context))"

definition findRecord :: "TrxContext \<Rightarrow> int \<Rightarrow> nat option result" where
  "findRecord context rid =
     first_index (rowID_is (dataPool context) rid) 0 (length (trxIDs context))"

subsection \<open>Read views\<close>

fun createReadView_loop :: "Trx list \<Rightarrow> Trx list \<Rightarrow> Trx list" where
  "createReadView_loop [] ids = ids"
| "createReadView_loop (x # xs) ids =
     createReadView_loop xs (if status x = uncommit then ids @ [x] else ids)"

definition createReadView :: "TrxContext \<Rightarrow> readView" where
  "createReadView context =
     (let ids = createReadView_loop (trxIDs context) [] in
      if length ids > 0
      then ReadView (trxID (ids ! 0)) (trxID (ids ! (length ids - 1))) ids
      else ReadView 0 0 ids)"

subsection \<open>Operations\<close>

text \<open>
  A receiver \<open>t *Trx\<close> is the index of the pool slot it points to (\<open>AllocteTrx\<close>
  returns \<open>&context.trxIDs[i]\<close>); \<open>None\<close>, and an index outside the pool, stand for
  the nil pointer.  A \<open>Trx\<close> value that lives outside the pool is not modelled.
  \<open>Select\<close> and \<open>selectRollback\<close> only print; they reach the state through \<open>check\<close>.
\<close>

definition deref_trx :: "TrxContext \<Rightarrow> nat option \<Rightarrow> (nat \<times> Trx) result" where
  "deref_trx context t =
     (case t of
        None \<Rightarrow> Inl NilDeref
      | Some i \<Rightarrow>
          if i < length (trxIDs context) then Inr (i, trxIDs context ! i)
          else Inl NilDeref)"

definition Begin :: "nat option \<Rightarrow> TrxContext \<Rightarrow> TrxContext result" where
  "Begin t context =
     (let c1 = context\<lparr>trxCounter := trxCounter context + 1\<rparr> in
      case deref_trx c1 t of
        Inl e \<Rightarrow> Inl e
      | Inr (i, tr) \<Rightarrow>
          let c2 = c1\<lparr>trxIDs := (trxIDs c1)[i := Trx (trxCounter c1) uncommit (view tr)]\<rparr>;
              v = createReadView c2
          in Inr (c2\<lparr>trxIDs := (trxIDs c2)[i := Trx (trxCounter c1) uncommit (Some v)]\<rparr>))"

definition Commit :: "nat option \<Rightarrow> TrxContext \<Rightarrow> TrxContext result" where
  "Commit t context =
     (case deref_trx context t of
        Inl e \<Rightarrow> Inl e
      | Inr (i, tr) \<Rightarrow>
          Inr (context\<lparr>trxIDs := (trxIDs context)[i := Trx (trxID tr) commit (view tr)]\<rparr>))"

definition Rollback :: "nat option \<Rightarrow> TrxContext \<Rightarrow> TrxContext result" where
  "Rollback t context =
     (case deref_trx context t of
        Inl e \<Rightarrow> Inl e
      | Inr (i, tr) \<Rightarrow>
          Inr (context\<lparr>trxIDs := (trxIDs context)[i := Trx (trxID tr) rollback (view tr)]\<rparr>))"

text \<open>
  \<open>Insert\<close>: \<open>r := context.allocteRecord(); r.data = ...; r.trxID = t.trxID;
  rowCounter++; r.rowID = rowCounter\<close>.  Nothing tests \<open>r\<close> for nil.
\<close>

definition Insert_trx :: "nat option \<Rightarrow> TrxContext \<Rightarrow> string \<Rightarrow> TrxContext result" where
  "Insert_trx t context d =
     (case allocteRecord context of
        Inl e \<Rightarrow> Inl e
      | Inr None \<Rightarrow> Inl NilDeref
      | Inr (Some j) \<Rightarrow>
          (case deref_trx context t of
             Inl e \<Rightarrow> Inl e
           | Inr (i, tr) \<Rightarrow>
               let r = (dataPool context ! j)\<lparr>rec_data := d, rec_trxID := trxID tr\<rparr>;
                   n = rowCounter context + 1
               in Inr (context\<lparr>dataPool := (dataPool context)[j := r\<lparr>rowID := n\<rparr>],
                                rowCounter := n\<rparr>)))"

text \<open>
  \<open>Update\<close>: \<open>r := ctx.findRecord(rowid); u := ctx.allocteUndo(); u.trxID = r.trxID;
  u.data = r.data\<close>, then the undo entry is linked in front of the record's chain and
  the record takes the updater's id and the new data.  Neither \<open>r\<close> nor \<open>u\<close> is tested
  for nil, and no field of \<open>u\<close> other than \<open>trxID\<close>, \<open>data\<close> and \<open>rollPtr\<close> is written.
\<close>

definition Update :: "nat option \<Rightarrow> TrxContext \<Rightarrow> int \<Rightarrow> string \<Rightarrow> TrxContext result" where
  "Update t ctx rid d =
     (case findRecord ctx rid of
        Inl e \<Rightarrow> Inl e
      | Inr ro \<Rightarrow>
     (case allocteUndo ctx of
        Inl e \<Rightarrow> Inl e
      | Inr uo \<Rightarrow>
     (case (ro, uo) of
        (Some j, Some k) \<Rightarrow>
          let r = dataPool ctx ! j;
              u = (undo ctx ! k)\<lparr>rec_trxID := rec_trxID r, rec_data := rec_data r\<rparr>;
              u' = (case rollPtr r of None \<Rightarrow> u | Some u1 \<Rightarrow> u\<lparr>rollPtr := Some u1\<rparr>);
              r' = r\<lparr>rollPtr := Some k\<rparr>
          in (case deref_trx ctx t of
                Inl e \<Rightarrow> Inl e
              | Inr (i, tr) \<Rightarrow>
                  Inr (ctx\<lparr>undo := (undo ctx)[k := u'],
                           dataPool := (dataPool ctx)[j := r'\<lparr>rec_trxID := trxID tr, rec_data := d\<rparr>]\<rparr>))
      | _ \<Rightarrow> Inl NilDeref)))"

subsection \<open>Visibility\<close>

fun inView_loop :: "Trx list \<Rightarrow> int \<Rightarrow> bool" where
  "inView_loop [] tid = False"
| "inView_loop (x # xs) tid = (if trxID x = tid then True else inView_loop xs tid)"

definition inView :: "Trx \<Rightarrow> int \<Rightarrow> bool result" where
  "inView t tid =
     (case view t of None \<Rightarrow> Inl NilDeref | Some v \<Rightarrow> Inr (inView_loop (view_trxIDs v) tid))"

definition check :: "Trx \<Rightarrow> int \<Rightarrow> bool result" where
  "check t tid =
     (if trxID t = tid then Inr True
      else case view t of
        None \<Rightarrow> Inl NilDeref
      | Some v \<Rightarrow>
          let tmin = lowLimitID v; tmax = upLimitID v in
          if tid < tmin then Inr True
          else if tid > tmax then Inr False
          else (case inView t tid of
                  Inl e \<Rightarrow> Inl e
                | Inr True \<Rightarrow> Inr False
                | Inr False \<Rightarrow> Inr True))"

subsection \<open>The visibility rule in the words of the specification\<close>

text \<open>
  The rule as the specification words it, for a transaction \<open>t\<close> whose view is \<open>v\<close>: the
  writer is \<open>t\<close> itself, or is below \<open>low_limit_id\<close>, or lies in \<open>(low, up]\<close> and is
  not one of the active ids.
\<close>

definition spec_visible :: "Trx \<Rightarrow> readView \<Rightarrow> int \<Rightarrow> bool" where
  "spec_visible t v w \<longleftrightarrow>
     w = trxID t \<or> w < lowLimitID v \<or>
     (lowLimitID v < w \<and> w \<le> upLimitID v \<and> w \<notin> trxID ` set (view_trxIDs v))"

subsection \<open>Sequences of operations\<close>

text \<open>
  The calls that write to the context, as data, and the state after a sequence of them.
  \<open>AllocteTrx\<close> and \<open>Select\<close> write nothing.
\<close>

datatype op =
    OpBegin "nat option"
  | OpCommit "nat option"
  | OpRollback "nat option"
  | OpInsert "nat option" string
  | OpUpdate "nat option" int string

fun step :: "op \<Rightarrow> TrxContext \<Rightarrow> TrxContext result" where
  "step (OpBegin t) c = Begin t c"
| "step (OpCommit t) c = Commit t c"
| "step (OpRollback t) c = Rollback t c"
| "step (OpInsert t d) c = Insert_trx t c d"
| "step (OpUpdate t rid d) c = Update t c rid d"

fun run :: "op list \<Rightarrow> TrxContext \<Rightarrow> TrxContext result" where
  "run [] c = Inr c"
| "run (x # xs) c = (case step x c of Inl e \<Rightarrow> Inl e | Inr c' \<Rightarrow> run xs c')"


text \<open>The pool as \<open>createReadView\<close> sees it inside \<open>Begin\<close> on slot \<open>i\<close>.\<close>

definition mark_uncommit :: "nat \<Rightarrow> TrxContext \<Rightarrow> Trx list" where
  "mark_uncommit i c = (trxIDs c)[i := Trx (trxCounter c + 1) uncommit (view (trxIDs c ! i))]"

subsection \<open>Auxiliary notions for the properties\<close>

text \<open>A result that is a panic.\<close>

definition is_fault :: "'a result \<Rightarrow> bool" where
  "is_fault r = (case r of Inl e \<Rightarrow> True | Inr x \<Rightarrow> False)"

text \<open>
  What every begun transaction of a reachable pool satisfies: its own id is among the ids of
  its view, no id of the view is above it, and both limits are ids of the view.
\<close>

definition view_ok :: "Trx \<Rightarrow> bool" where
  "view_ok x \<longleftrightarrow>
     (case view x of
        None \<Rightarrow> True
      | Some v \<Rightarrow>
          trxID x \<in> trxID ` set (view_trxIDs v) \<and>
          (\<forall>y \<in> set (view_trxIDs v). trxID y \<le> trxID x) \<and>
          lowLimitID v \<in> trxID ` set (view_trxIDs v) \<and>
          upLimitID v \<in> trxID ` set (view_trxIDs v))"

definition pool_ok :: "TrxContext \<Rightarrow> bool" where
  "pool_ok c \<longleftrightarrow> (\<forall>x \<in> set (trxIDs c). trxID x \<le> trxCounter c \<and> view_ok x)"

text \<open>The first \<open>n\<close> slots of the data pool are taken, the others are free.\<close>

definition filled :: "nat \<Rightarrow> TrxContext \<Rightarrow> bool" where
  "filled n c \<longleftrightarrow>
     length (dataPool c) = length (trxIDs c) \<and> rowCounter c = int n \<and>
     (\<forall>k < length (dataPool c). (rowID (dataPool c ! k) = 0) = (n \<le> k))"





text \<open>A context whose three pools have no free slot.\<close>

definition exhausted_ctx :: TrxContext where
  "exhausted_ctx =
     \<lparr>trxIDs = replicate 1024 (Trx 0 commit None),
      dataPool = replicate 1024 (zero_record\<lparr>rowID := 1\<rparr>),
      undo = replicate 1024 (zero_record\<lparr>rowID := 1\<rparr>),
      trxCounter = 0,
      rowCounter = 0\<rparr>"

section \<open>The B+ tree (\<open>btree_ex.go\<close>)\<close>

text \<open>
  In this part a function that can panic returns an \<open>option\<close>, and \<open>None\<close> is the
  panic (or, for the two recursive descents, not returning), so that the code can be
  written with \<open>do\<close>.  The tree is passed in and the changed tree is returned.
\<close>

subsection \<open>Data\<close>

type_synonym byte = "8 word"
type_synonym uint32 = "32 word"
type_synonym uint64 = "64 word"

text \<open>
  \<open>type BPlusTree struct { data []byte; leaf uint32; order int }\<close>.  Go's \<open>int\<close> is
  modelled as \<open>int\<close>; \<open>uint32\<close> arithmetic wraps, as in the source.
\<close>

record BPlusTree =
  data :: "byte list"
  leaf :: uint32
  order :: int

abbreviation (input) pageSize :: "'a::numeral" where "pageSize \<equiv> 512"
abbreviation (input) rootPageNo :: uint32 where "rootPageNo \<equiv> 1"
abbreviation (input) nodeTypeInternal :: byte where "nodeTypeInternal \<equiv> 1"
abbreviation (input) nodeTypeLeaf :: byte where "nodeTypeLeaf \<equiv> 2"
abbreviation (input) nodeUsed :: byte where "nodeUsed \<equiv> 1"
abbreviation (input) nodeUnused :: byte where "nodeUnused \<equiv> 0"
abbreviation (input) offsetPageNo :: int where "offsetPageNo \<equiv> 0"
abbreviation (input) offsetNodeType :: int where "offsetNodeType \<equiv> 4"
abbreviation (input) offsetUsed :: int where "offsetUsed \<equiv> 5"
abbreviation (input) offsetParent :: int where "offsetParent \<equiv> 8"
abbreviation (input) offsetUsablePtr :: int where "offsetUsablePtr \<equiv> 12"
abbreviation (input) offsetNumberOfKey :: int where "offsetNumberOfKey \<equiv> 32"
abbreviation (input) offsetKey :: int where "offsetKey \<equiv> 36"
abbreviation (input) offsetPayload :: "'a::numeral" where "offsetPayload \<equiv> 504"
abbreviation (input) offsetNext :: int where "offsetNext \<equiv> 504"

text \<open>
  \<open>ceil(n) = int(math.Ceil(float64(n) / 2))\<close>; the conversion to \<open>float64\<close> is exact
  for \<open>|n| \<le> 2^53\<close>, where the result is the integer below.
\<close>

definition ceil :: "int \<Rightarrow> int" where
  "ceil n = (n + 1) div 2"

subsection \<open>Slices of the page buffer\<close>

text \<open>
  A slice of \<open>b.data\<close> is the index of its first element in \<open>b.data\<close>, its length and
  its capacity.  Indexing is checked against the length, re-slicing \<open>s[lo:hi]\<close> against
  the capacity, \<open>s[lo:]\<close> against the length.  Every slice below is cut from \<open>b.data\<close>,
  so \<open>s_off + s_cap\<close> is the length of \<open>b.data\<close>.
\<close>

record slice =
  s_off :: nat
  s_len :: nat
  s_cap :: nat

definition slice_sub :: "slice \<Rightarrow> int \<Rightarrow> int \<Rightarrow> slice option" where
  "slice_sub s lo hi =
     (if 0 \<le> lo \<and> lo \<le> hi \<and> hi \<le> int (s_cap s)
      then Some \<lparr>s_off = s_off s + nat lo, s_len = nat (hi - lo), s_cap = s_cap s - nat lo\<rparr>
      else None)"

definition slice_from :: "slice \<Rightarrow> int \<Rightarrow> slice option" where
  "slice_from s lo =
     (if 0 \<le> lo \<and> lo \<le> int (s_len s)
      then Some \<lparr>s_off = s_off s + nat lo, s_len = s_len s - nat lo, s_cap = s_cap s - nat lo\<rparr>
      else None)"

definition index_get :: "byte list \<Rightarrow> slice \<Rightarrow> int \<Rightarrow> byte option" where
  "index_get m s i =
     (if 0 \<le> i \<and> i < int (s_len s) then Some (m ! (s_off s + nat i)) else None)"

definition index_set :: "byte list \<Rightarrow> slice \<Rightarrow> int \<Rightarrow> byte \<Rightarrow> byte list option" where
  "index_set m s i v =
     (if 0 \<le> i \<and> i < int (s_len s) then Some (m[s_off s + nat i := v]) else None)"

subsection \<open>Big-endian integers\<close>

text \<open>
  \<open>binary.BigEndian\<close>: the most significant byte first.  Each of the four functions
  first touches the last byte it needs, and panics when the slice is shorter.
\<close>

definition byte_of :: "nat \<Rightarrow> nat \<Rightarrow> byte" where
  "byte_of n k = of_nat ((n div 256 ^ k) mod 256)"

definition bytes32 :: "uint32 \<Rightarrow> byte list" where
  "bytes32 v = [byte_of (unat v) 3, byte_of (unat v) 2, byte_of (unat v) 1, byte_of (unat v) 0]"

definition bytes64 :: "uint64 \<Rightarrow> byte list" where
  "bytes64 v =
     [byte_of (unat v) 7, byte_of (unat v) 6, byte_of (unat v) 5, byte_of (unat v) 4,
      byte_of (unat v) 3, byte_of (unat v) 2, byte_of (unat v) 1, byte_of (unat v) 0]"

fun be_nat :: "byte list \<Rightarrow> nat \<Rightarrow> nat" where
  "be_nat [] acc = acc"
| "be_nat (x # xs) acc = be_nat xs (acc * 256 + unat x)"

fun read_bytes :: "byte list \<Rightarrow> nat \<Rightarrow> nat \<Rightarrow> byte list" where
  "read_bytes m a 0 = []"
| "read_bytes m a (Suc n) = m ! a # read_bytes m (Suc a) n"

fun write_bytes :: "byte list \<Rightarrow> nat \<Rightarrow> byte list \<Rightarrow> byte list" where
  "write_bytes m a [] = m"
| "write_bytes m a (x # xs) = write_bytes (m[a := x]) (Suc a) xs"

definition Uint32 :: "byte list \<Rightarrow> slice \<Rightarrow> uint32 option" where
  "Uint32 m s =
     (if s_len s < 4 then None else Some (of_nat (be_nat (read_bytes m (s_off s) 4) 0)))"

definition PutUint32 :: "byte list \<Rightarrow> slice \<Rightarrow> uint32 \<Rightarrow> byte list option" where
  "PutUint32 m s v =
     (if s_len s < 4 then None else Some (write_bytes m (s_off s) (bytes32 v)))"

definition Uint64 :: "byte list \<Rightarrow> slice \<Rightarrow> uint64 option" where
  "Uint64 m s =
     (if s_len s < 8 then None else Some (of_nat (be_nat (read_bytes m (s_off s) 8) 0)))"

definition PutUint64 :: "byte list \<Rightarrow> slice \<Rightarrow> uint64 \<Rightarrow> byte list option" where
  "PutUint64 m s v =
     (if s_len s < 8 then None else Some (write_bytes m (s_off s) (bytes64 v)))"

text \<open>\<open>binary.BigEndian.Uint32(cell)\<close> on a slice of its own (a cell), nil being \<open>None\<close>.\<close>

definition Uint32_cell :: "byte list option \<Rightarrow> uint32 option" where
  "Uint32_cell cell =
     (case cell of
        None \<Rightarrow> None
      | Some c \<Rightarrow> if length c < 4 then None else Some (of_nat (be_nat (take 4 c) 0)))"

definition setInt32 :: "byte list \<Rightarrow> slice \<Rightarrow> int \<Rightarrow> uint32 \<Rightarrow> byte list option" where
  "setInt32 m d offset v = do { let len = offset + 4; t \<leftarrow> slice_sub d offset len; PutUint32 m t v }"

definition getInt32 :: "byte list \<Rightarrow> slice \<Rightarrow> int \<Rightarrow> uint32 option" where
  "getInt32 m d offset = do { let len = offset + 4; t \<leftarrow> slice_sub d offset len; Uint32 m t }"

definition setInt64 :: "byte list \<Rightarrow> slice \<Rightarrow> int \<Rightarrow> uint64 \<Rightarrow> byte list option" where
  "setInt64 m d offset v = do { let len = offset + 8; t \<leftarrow> slice_sub d offset len; PutUint64 m t v }"

definition getInt64 :: "byte list \<Rightarrow> slice \<Rightarrow> int \<Rightarrow> uint64 option" where
  "getInt64 m d offset = do { let len = offset + 8; t \<leftarrow> slice_sub d offset len; Uint64 m t }"

subsection \<open>Page accessors\<close>

text \<open>
  \<open>getPageData\<close>: \<open>offset := page * pageSize; len := offset + pageSize;
  return b.data[offset:len]\<close>, both computed in \<open>uint32\<close>.
\<close>

definition getPageData :: "BPlusTree \<Rightarrow> uint32 \<Rightarrow> slice option" where
  "getPageData b page =
     (let offset = page * pageSize; len = offset + pageSize in
      slice_sub \<lparr>s_off = 0, s_len = length (data b), s_cap = length (data b)\<rparr>
        (uint offset) (uint len))"

definition getPageInt32 :: "BPlusTree \<Rightarrow> uint32 \<Rightarrow> int \<Rightarrow> uint32 option" where
  "getPageInt32 b page offset = do { d \<leftarrow> getPageData b page; getInt32 (data b) d offset }"

definition setPageInt32 :: "BPlusTree \<Rightarrow> uint32 \<Rightarrow> int \<Rightarrow> uint32 \<Rightarrow> BPlusTree option" where
  "setPageInt32 b page offset v =
     do { d \<leftarrow> getPageData b page; m \<leftarrow> setInt32 (data b) d offset v; Some (b\<lparr>data := m\<rparr>) }"

definition setPageNo :: "BPlusTree \<Rightarrow> uint32 \<Rightarrow> uint32 \<Rightarrow> BPlusTree option" where
  "setPageNo b page v = setPageInt32 b page offsetPageNo v"

definition getPageNo :: "BPlusTree \<Rightarrow> uint32 \<Rightarrow> uint32 option" where
  "getPageNo b page = getPageInt32 b page offsetPageNo"

definition setNext :: "BPlusTree \<Rightarrow> uint32 \<Rightarrow> uint32 \<Rightarrow> BPlusTree option" where
  "setNext b page v = setPageInt32 b page offsetNext v"

definition getNext :: "BPlusTree \<Rightarrow> uint32 \<Rightarrow> uint32 option" where
  "getNext b page = getPageInt32 b page offsetNext"

definition setNumberOfKey :: "BPlusTree \<Rightarrow> uint32 \<Rightarrow> uint32 \<Rightarrow> BPlusTree option" where
  "setNumberOfKey b page v = setPageInt32 b page offsetNumberOfKey v"

definition getNumberOfKey :: "BPlusTree \<Rightarrow> uint32 \<Rightarrow> uint32 option" where
  "getNumberOfKey b page = getPageInt32 b page offsetNumberOfKey"

definition setNodeType :: "BPlusTree \<Rightarrow> uint32 \<Rightarrow> byte \<Rightarrow> BPlusTree option" where
  "setNodeType b page v =
     do { d \<leftarrow> getPageData b page; m \<leftarrow> index_set (data b) d offsetNodeType v;
          Some (b\<lparr>data := m\<rparr>) }"

definition getNodeType :: "BPlusTree \<Rightarrow> uint32 \<Rightarrow> byte option" where
  "getNodeType b page = do { d \<leftarrow> getPageData b page; index_get (data b) d offsetNodeType }"

definition setUsed :: "BPlusTree \<Rightarrow> uint32 \<Rightarrow> byte \<Rightarrow> BPlusTree option" where
  "setUsed b page v =
     do { d \<leftarrow> getPageData b page; m \<leftarrow> index_set (data b) d offsetUsed v;
          Some (b\<lparr>data := m\<rparr>) }"

definition isUsed :: "BPlusTree \<Rightarrow> uint32 \<Rightarrow> bool option" where
  "isUsed b page =
     do { d \<leftarrow> getPageData b page; x \<leftarrow> index_get (data b) d offsetUsed; Some (x = nodeUsed) }"

definition setParent :: "BPlusTree \<Rightarrow> uint32 \<Rightarrow> uint32 \<Rightarrow> BPlusTree option" where
  "setParent b page v = setPageInt32 b page offsetParent v"

definition getParent :: "BPlusTree \<Rightarrow> uint32 \<Rightarrow> uint32 option" where
  "getParent b page = getPageInt32 b page offsetParent"

definition setKey :: "BPlusTree \<Rightarrow> uint32 \<Rightarrow> int \<Rightarrow> uint64 \<Rightarrow> BPlusTree option" where
  "setKey b page index k =
     do { d \<leftarrow> getPageData b page;
          let offset = offsetKey + index * 12;
          m \<leftarrow> setInt64 (data b) d offset k;
          Some (b\<lparr>data := m\<rparr>) }"

definition getKey :: "BPlusTree \<Rightarrow> uint32 \<Rightarrow> int \<Rightarrow> uint64 option" where
  "getKey b page index =
     do { d \<leftarrow> getPageData b page;
          let offset = offsetKey + index * 12;
          getInt64 (data b) d offset }"

definition setCellPtr :: "BPlusTree \<Rightarrow> uint32 \<Rightarrow> int \<Rightarrow> uint32 \<Rightarrow> BPlusTree option" where
  "setCellPtr b page index k =
     do { d \<leftarrow> getPageData b page;
          let offset = offsetKey + index * 12 + 8;
          m \<leftarrow> setInt32 (data b) d offset k;
          Some (b\<lparr>data := m\<rparr>) }"

definition getCellPtr :: "BPlusTree \<Rightarrow> uint32 \<Rightarrow> int \<Rightarrow> uint32 option" where
  "getCellPtr b page index =
     do { d \<leftarrow> getPageData b page;
          let offset = offsetKey + index * 12 + 8;
          getInt32 (data b) d offset }"

definition setUsablePtr :: "BPlusTree \<Rightarrow> uint32 \<Rightarrow> uint32 \<Rightarrow> BPlusTree option" where
  "setUsablePtr b page ptr =
     do { d \<leftarrow> getPageData b page; m \<leftarrow> setInt32 (data b) d offsetUsablePtr ptr;
          Some (b\<lparr>data := m\<rparr>) }"

definition getUsablePtr :: "BPlusTree \<Rightarrow> uint32 \<Rightarrow> uint32 option" where
  "getUsablePtr b page = do { d \<leftarrow> getPageData b page; getInt32 (data b) d offsetUsablePtr }"

definition getMaxKey :: "BPlusTree \<Rightarrow> uint32 \<Rightarrow> uint64 option" where
  "getMaxKey b page =
     do { n \<leftarrow> getNumberOfKey b page;
          let numberOfKey = uint n;
          getKey b page (numberOfKey - 1) }"

text \<open>
  \<open>getKeyIndex\<close>: \<open>for i := 0; i < numberOfKey; i++\<close>, with \<open>numberOfKey\<close> read once
  before the loop; the last argument of the loop function counts the iterations left.
\<close>

fun getKeyIndex_loop :: "BPlusTree \<Rightarrow> uint32 \<Rightarrow> uint64 \<Rightarrow> int \<Rightarrow> nat \<Rightarrow> int option" where
  "getKeyIndex_loop b page key i 0 = Some (- 1)"
| "getKeyIndex_loop b page key i (Suc n) =
     do { ikey \<leftarrow> getKey b page i;
          if ikey = key then Some i else getKeyIndex_loop b page key (i + 1) n }"

definition getKeyIndex :: "BPlusTree \<Rightarrow> uint32 \<Rightarrow> uint64 \<Rightarrow> int option" where
  "getKeyIndex b page key =
     do { n \<leftarrow> getNumberOfKey b page;
          let numberOfKey = uint n;
          getKeyIndex_loop b page key 0 (nat numberOfKey) }"

subsection \<open>Cells\<close>

text \<open>
  A cell is a slice of its own (\<open>make\<close>), modelled by the list of its bytes; the nil
  slice is \<open>None\<close>.  \<open>blockCopy\<close> returns an error, which every caller drops, and copies
  nothing when a range test fails.

  \<open>blockCopy(data, offset, cell, 0, len(cell))\<close> from a page into a fresh cell of
  \<open>count\<close> zero bytes: the cell afterwards.
\<close>

definition blockCopy_from_page :: "byte list \<Rightarrow> slice \<Rightarrow> int \<Rightarrow> nat \<Rightarrow> byte list" where
  "blockCopy_from_page m src srcOffset count =
     (let srcLen = int (s_len src) in
      if srcOffset > srcLen \<or> int count > srcLen \<or> srcOffset + int count > srcLen
      then replicate count 0
      else read_bytes m (s_off src + nat srcOffset) count)"

text \<open>
  \<open>blockCopy(cell, 0, data, dstOffset, len(cell))\<close> from a cell into a page.  A negative
  \<open>dstOffset\<close> passes the range tests and the first store panics.
\<close>

definition blockCopy_to_page :: "byte list \<Rightarrow> byte list \<Rightarrow> slice \<Rightarrow> int \<Rightarrow> byte list option" where
  "blockCopy_to_page m cell dst dstOffset =
     (let dstLen = int (s_len dst); count = int (length cell) in
      if dstOffset > dstLen \<or> count > dstLen \<or> dstOffset + count > dstLen then Some m
      else if count = 0 then Some m
      else if dstOffset < 0 then None
      else Some (write_bytes m (s_off dst + nat dstOffset) cell))"

text \<open>
  \<open>marshal\<close>: for a payload that is not nil, \<open>child\<close>, then the length of the payload
  as \<open>uint32\<close>, then the payload; for nil, \<open>child\<close> alone.
\<close>

definition marshal :: "uint32 \<Rightarrow> byte list option \<Rightarrow> byte list" where
  "marshal child payload =
     (case payload of
        Some p \<Rightarrow> bytes32 child @ bytes32 (of_nat (length p)) @ p
      | None \<Rightarrow> bytes32 child)"

text \<open>\<open>lshift\<close>: \<open>for i := 0; i < len; i++ { data[src-shiftSize+i] = data[src+i] }\<close>.\<close>

fun lshift_loop :: "byte list \<Rightarrow> slice \<Rightarrow> int \<Rightarrow> int \<Rightarrow> int \<Rightarrow> nat \<Rightarrow> byte list option" where
  "lshift_loop m d src shiftSize i 0 = Some m"
| "lshift_loop m d src shiftSize i (Suc n) =
     do { x \<leftarrow> index_get m d (src + i);
          m' \<leftarrow> index_set m d (src - shiftSize + i) x;
          lshift_loop m' d src shiftSize (i + 1) n }"

definition lshift :: "byte list \<Rightarrow> slice \<Rightarrow> int \<Rightarrow> int \<Rightarrow> int \<Rightarrow> byte list option" where
  "lshift m d src len shiftSize = lshift_loop m d src shiftSize 0 (nat len)"

text \<open>\<open>rshift\<close>: \<open>for i := len - 1; i >= 0; i-- { data[src+shiftSize+i] = data[src+i] }\<close>.\<close>

fun rshift_loop :: "byte list \<Rightarrow> slice \<Rightarrow> int \<Rightarrow> int \<Rightarrow> nat \<Rightarrow> byte list option" where
  "rshift_loop m d src shiftSize 0 = Some m"
| "rshift_loop m d src shiftSize (Suc i) =
     do { x \<leftarrow> index_get m d (src + int i);
          m' \<leftarrow> index_set m d (src + shiftSize + int i) x;
          rshift_loop m' d src shiftSize i }"

definition rshift :: "byte list \<Rightarrow> slice \<Rightarrow> int \<Rightarrow> int \<Rightarrow> int \<Rightarrow> byte list option" where
  "rshift m d src len shiftSize = rshift_loop m d src shiftSize (nat len)"

definition shift :: "byte list \<Rightarrow> slice \<Rightarrow> int \<Rightarrow> int \<Rightarrow> int \<Rightarrow> byte list option" where
  "shift m d src len shiftSize =
     (if shiftSize > 0 then rshift m d src len shiftSize
      else if shiftSize < 0 then lshift m d src len (- shiftSize)
      else Some m)"

fun shiftCellPtr_loop :: "BPlusTree \<Rightarrow> uint32 \<Rightarrow> uint32 \<Rightarrow> int \<Rightarrow> int \<Rightarrow> nat \<Rightarrow> BPlusTree option" where
  "shiftCellPtr_loop b page cellptr shiftSize i 0 = Some b"
| "shiftCellPtr_loop b page cellptr shiftSize i (Suc n) =
     do { icellPtr \<leftarrow> getCellPtr b page i;
          b' \<leftarrow> (if icellPtr > 0 \<and> icellPtr < cellptr
                 then setCellPtr b page i (of_int (uint icellPtr + shiftSize))
                 else Some b);
          shiftCellPtr_loop b' page cellptr shiftSize (i + 1) n }"

definition shiftCellPtr :: "BPlusTree \<Rightarrow> uint32 \<Rightarrow> uint32 \<Rightarrow> int \<Rightarrow> BPlusTree option" where
  "shiftCellPtr b page cellptr shiftSize =
     do { n \<leftarrow> getNumberOfKey b page;
          let numberOfKey = uint n;
          shiftCellPtr_loop b page cellptr shiftSize 0 (nat numberOfKey) }"

text \<open>
  \<open>getKeyCell\<close>: nil when the key is in no slot; otherwise a fresh cell, of
  \<open>8 + payloadSize\<close> bytes (in \<open>uint32\<close>) on a leaf and of 4 bytes on an internal node,
  filled from the page at the slot's cell pointer.
\<close>

definition getKeyCell :: "BPlusTree \<Rightarrow> uint32 \<Rightarrow> uint64 \<Rightarrow> byte list option option" where
  "getKeyCell b page key =
     do { index \<leftarrow> getKeyIndex b page key;
          if index = - 1 then Some None
          else do {
            offset \<leftarrow> getCellPtr b page index;
            t \<leftarrow> getNodeType b page;
            if t = nodeTypeLeaf then do {
              d \<leftarrow> getPageData b page;
              s \<leftarrow> slice_from d (uint (offset + 4));
              payloadSize \<leftarrow> Uint32 (data b) s;
              Some (Some (blockCopy_from_page (data b) d (uint offset) (unat (8 + payloadSize))))
            } else do {
              d \<leftarrow> getPageData b page;
              Some (Some (blockCopy_from_page (data b) d (uint offset) 4))
            }
          }
        }"

definition getKeyPayload :: "BPlusTree \<Rightarrow> uint32 \<Rightarrow> uint64 \<Rightarrow> byte list option option" where
  "getKeyPayload b page key =
     do { cell \<leftarrow> getKeyCell b page key;
          t \<leftarrow> getNodeType b page;
          if t = nodeTypeLeaf
          then (case cell of
                  None \<Rightarrow> None
                | Some c \<Rightarrow> if 8 \<le> length c then Some (Some (drop 8 c)) else None)
          else Some None }"

definition getChildByKey :: "BPlusTree \<Rightarrow> uint32 \<Rightarrow> uint64 \<Rightarrow> uint32 option" where
  "getChildByKey b page key = do { cell \<leftarrow> getKeyCell b page key; Uint32_cell cell }"

definition getChildByIndex :: "BPlusTree \<Rightarrow> uint32 \<Rightarrow> int \<Rightarrow> uint32 option" where
  "getChildByIndex b page index = do { key \<leftarrow> getKey b page index; getChildByKey b page key }"

definition getChild :: "BPlusTree \<Rightarrow> uint32 \<Rightarrow> int \<Rightarrow> uint32 option" where
  "getChild b page index = getChildByIndex b page index"

definition cell_len :: "byte list option \<Rightarrow> int" where
  "cell_len cell = (case cell of None \<Rightarrow> 0 | Some c \<Rightarrow> int (length c))"

definition deleteCell :: "BPlusTree \<Rightarrow> uint32 \<Rightarrow> int \<Rightarrow> BPlusTree option" where
  "deleteCell b page index =
     do { cellptr \<leftarrow> getCellPtr b page index;
          if cellptr = 0 then Some b
          else do {
            d \<leftarrow> getPageData b page;
            k \<leftarrow> getKey b page index;
            cell \<leftarrow> getKeyCell b page k;
            usablePtr \<leftarrow> getUsablePtr b page;
            let shiftSize = cell_len cell;
            let length = uint (cellptr - usablePtr);
            b1 \<leftarrow> (if length > 0
                   then do { m \<leftarrow> shift (data b) d (uint usablePtr) length shiftSize;
                             shiftCellPtr (b\<lparr>data := m\<rparr>) page cellptr shiftSize }
                   else Some b);
            b2 \<leftarrow> setUsablePtr b1 page (of_int (uint usablePtr + shiftSize));
            setCellPtr b2 page index 0
          }
        }"

definition insertOrUpdateCell :: "BPlusTree \<Rightarrow> uint32 \<Rightarrow> int \<Rightarrow> byte list \<Rightarrow> BPlusTree option" where
  "insertOrUpdateCell b page index cell =
     do { cellPtr \<leftarrow> getCellPtr b page index;
          d \<leftarrow> getPageData b page;
          k \<leftarrow> getKey b page index;
          oldCell \<leftarrow> getKeyCell b page k;
          (cellPtr', shiftSize, b') \<leftarrow>
            (if cellPtr = 0 then do {
               u \<leftarrow> getUsablePtr b page;
               let cellPtr = u - of_nat (length cell);
               b1 \<leftarrow> setCellPtr b page index cellPtr;
               b2 \<leftarrow> setUsablePtr b1 page cellPtr;
               Some (cellPtr, 0, b2)
             } else if oldCell \<noteq> None then do {
               let shiftSize = cell_len oldCell - int (length cell);
               usablePtr \<leftarrow> getUsablePtr b page;
               let len = uint (cellPtr - usablePtr);
               if len > 0 then do {
                 m \<leftarrow> shift (data b) d (uint usablePtr) len shiftSize;
                 b1 \<leftarrow> shiftCellPtr (b\<lparr>data := m\<rparr>) page cellPtr shiftSize;
                 b2 \<leftarrow> setUsablePtr b1 page (of_int (uint usablePtr + shiftSize));
                 b3 \<leftarrow> setCellPtr b2 page index (of_int (uint cellPtr + shiftSize));
                 Some (cellPtr, shiftSize, b3)
               } else Some (cellPtr, shiftSize, b)
             } else Some (cellPtr, 0, b));
          m \<leftarrow> blockCopy_to_page (data b') cell d (uint cellPtr' + shiftSize);
          Some (b'\<lparr>data := m\<rparr>)
        }"

definition setChild :: "BPlusTree \<Rightarrow> uint32 \<Rightarrow> int \<Rightarrow> uint32 \<Rightarrow> byte list option \<Rightarrow> BPlusTree option" where
  "setChild b page index child payload =
     (if payload = None then insertOrUpdateCell b page index (bytes32 child)
      else insertOrUpdateCell b page index (marshal child payload))"

fun setChildParent_loop :: "BPlusTree \<Rightarrow> uint32 \<Rightarrow> int \<Rightarrow> nat \<Rightarrow> BPlusTree option" where
  "setChildParent_loop b page i 0 = Some b"
| "setChildParent_loop b page i (Suc n) =
     do { ichild \<leftarrow> getChild b page i;
          b' \<leftarrow> setParent b ichild page;
          setChildParent_loop b' page (i + 1) n }"

definition setChildParent :: "BPlusTree \<Rightarrow> uint32 \<Rightarrow> BPlusTree option" where
  "setChildParent b page =
     do { n \<leftarrow> getNumberOfKey b page;
          let numberOfKey = uint n;
          setChildParent_loop b page 0 (nat numberOfKey) }"

subsection \<open>Pages\<close>

text \<open>\<open>allocte\<close>: \<open>for i := 2; i < 32; i++\<close>; 0 when no page is free.\<close>

fun allocte_loop :: "BPlusTree \<Rightarrow> int \<Rightarrow> nat \<Rightarrow> (uint32 \<times> BPlusTree) option" where
  "allocte_loop b i 0 = Some (0, b)"
| "allocte_loop b i (Suc n) =
     do { u \<leftarrow> isUsed b (of_int i);
          if \<not> u then do { b' \<leftarrow> setUsed b (of_int i) nodeUsed; Some (of_int i, b') }
          else allocte_loop b (i + 1) n }"

definition allocte :: "BPlusTree \<Rightarrow> (uint32 \<times> BPlusTree) option" where
  "allocte b = allocte_loop b 2 30"

text \<open>
  \<open>copy\<close>: the built-in \<open>copy(dstData, srcData)\<close> moves \<open>min(len(dstData), len(srcData))\<close>
  bytes, as if through a buffer; then the page number of \<open>dst\<close> is set.
\<close>

definition copy_bytes :: "byte list \<Rightarrow> slice \<Rightarrow> slice \<Rightarrow> byte list" where
  "copy_bytes m dst src =
     write_bytes m (s_off dst) (read_bytes m (s_off src) (min (s_len dst) (s_len src)))"

definition copy :: "BPlusTree \<Rightarrow> uint32 \<Rightarrow> uint32 \<Rightarrow> BPlusTree option" where
  "copy b src dst =
     do { srcData \<leftarrow> getPageData b src;
          dstData \<leftarrow> getPageData b dst;
          setPageNo (b\<lparr>data := copy_bytes (data b) dstData srcData\<rparr>) dst dst }"

subsection \<open>Search\<close>

fun searchInternalNode_loop :: "BPlusTree \<Rightarrow> uint32 \<Rightarrow> uint64 \<Rightarrow> int \<Rightarrow> nat \<Rightarrow> int \<Rightarrow> int option" where
  "searchInternalNode_loop b pageNo key i 0 k = Some k"
| "searchInternalNode_loop b pageNo key i (Suc n) k =
     do { nodeKey \<leftarrow> getKey b pageNo i;
          if nodeKey \<ge> key then Some i
          else searchInternalNode_loop b pageNo key (i + 1) n k }"

partial_function (option) searchInternalNode :: "BPlusTree \<Rightarrow> uint32 \<Rightarrow> uint64 \<Rightarrow> uint32 option" where
  "searchInternalNode b pageNo key =
     do { n \<leftarrow> getNumberOfKey b pageNo;
          let numberOfKey = uint n;
          k \<leftarrow> searchInternalNode_loop b pageNo key 0 (nat numberOfKey) (numberOfKey - 1);
          child \<leftarrow> getChild b pageNo k;
          t \<leftarrow> getNodeType b child;
          if t = nodeTypeLeaf then Some child
          else searchInternalNode b child key }"

definition search :: "BPlusTree \<Rightarrow> uint64 \<Rightarrow> uint32 option" where
  "search b key =
     do { t \<leftarrow> getNodeType b rootPageNo;
          if t = nodeTypeLeaf then Some rootPageNo
          else searchInternalNode b rootPageNo key }"

subsection \<open>Insertion\<close>

fun updateKey_loop :: "BPlusTree \<Rightarrow> uint32 \<Rightarrow> uint64 \<Rightarrow> uint64 \<Rightarrow> int \<Rightarrow> nat \<Rightarrow> BPlusTree option" where
  "updateKey_loop b pageNo oldKey newKey i 0 = Some b"
| "updateKey_loop b pageNo oldKey newKey i (Suc n) =
     do { k \<leftarrow> getKey b pageNo i;
          b' \<leftarrow> (if k = oldKey then setKey b pageNo i newKey else Some b);
          updateKey_loop b' pageNo oldKey newKey (i + 1) n }"

definition updateKey :: "BPlusTree \<Rightarrow> uint32 \<Rightarrow> uint64 \<Rightarrow> uint64 \<Rightarrow> BPlusTree option" where
  "updateKey b pageNo oldKey newKey =
     do { n \<leftarrow> getNumberOfKey b pageNo;
          let numberOfKey = uint n;
          updateKey_loop b pageNo oldKey newKey 0 (nat numberOfKey) }"

text \<open>
  The loop of \<open>insertAndNotSplit\<close>, \<open>for i := numberOfKey - 1; i >= 0; i--\<close>: the
  argument \<open>Suc i\<close> stands for the index \<open>i\<close>; the result is \<open>k\<close> and the tree.
\<close>

fun insertAndNotSplit_loop :: "BPlusTree \<Rightarrow> uint32 \<Rightarrow> uint64 \<Rightarrow> nat \<Rightarrow> int \<Rightarrow> (int \<times> BPlusTree) option" where
  "insertAndNotSplit_loop b pageNo key 0 k = Some (k, b)"
| "insertAndNotSplit_loop b pageNo key (Suc i) k =
     do { ikey \<leftarrow> getKey b pageNo (int i);
          icellptr \<leftarrow> getCellPtr b pageNo (int i);
          if ikey < key then Some (int i + 1, b)
          else do {
            b1 \<leftarrow> setKey b pageNo (int i + 1) ikey;
            b2 \<leftarrow> setCellPtr b1 pageNo (int i + 1) icellptr;
            b3 \<leftarrow> setCellPtr b2 pageNo (int i) 0;
            insertAndNotSplit_loop b3 pageNo key i (int i)
          }
        }"

definition insertAndNotSplit :: "BPlusTree \<Rightarrow> uint32 \<Rightarrow> uint64 \<Rightarrow> uint32 \<Rightarrow> byte list option \<Rightarrow> BPlusTree option" where
  "insertAndNotSplit b pageNo key child payload =
     do { n \<leftarrow> getNumberOfKey b pageNo;
          let numberOfKey = uint n;
          oldMaxKey \<leftarrow> getKey b pageNo (numberOfKey - 1);
          (k, b1) \<leftarrow> insertAndNotSplit_loop b pageNo key (nat numberOfKey) numberOfKey;
          b2 \<leftarrow> setKey b1 pageNo k key;
          b3 \<leftarrow> setChild b2 pageNo k child payload;
          newMaxKey \<leftarrow> getKey b3 pageNo numberOfKey;
          parent \<leftarrow> getParent b3 pageNo;
          b4 \<leftarrow> (if parent \<noteq> 0 \<and> oldMaxKey \<noteq> newMaxKey
                 then updateKey b3 parent oldMaxKey newMaxKey
                 else Some b3);
          setNumberOfKey b4 pageNo (of_int (numberOfKey + 1))
        }"

definition insertAndSplitRoot :: "BPlusTree \<Rightarrow> uint32 \<Rightarrow> uint32 \<Rightarrow> uint32 \<Rightarrow> BPlusTree option" where
  "insertAndSplitRoot b root leftPage rightPage =
     do { leftMaxKey \<leftarrow> getMaxKey b leftPage;
          rightMaxKey \<leftarrow> getMaxKey b rightPage;
          b1 \<leftarrow> setNodeType b root nodeTypeInternal;
          b2 \<leftarrow> setUsablePtr b1 root offsetPayload;
          b3 \<leftarrow> setKey b2 root 0 leftMaxKey;
          b4 \<leftarrow> setCellPtr b3 root 0 0;
          b5 \<leftarrow> setChild b4 root 0 leftPage None;
          b6 \<leftarrow> setKey b5 root 1 rightMaxKey;
          b7 \<leftarrow> setCellPtr b6 root 1 0;
          b8 \<leftarrow> setChild b7 root 1 rightPage None;
          b9 \<leftarrow> setNumberOfKey b8 root 2;
          b10 \<leftarrow> setParent b9 leftPage root;
          b11 \<leftarrow> setParent b10 rightPage root;
          t \<leftarrow> getNodeType b11 leftPage;
          Some (if t = nodeTypeLeaf then b11\<lparr>leaf := leftPage\<rparr> else b11)
        }"

text \<open>
  The loop of \<open>insertAndSplitKey\<close>, \<open>for i := b.order - 1; i >= 0; i--\<close>, over the
  variables \<open>l\<close>, \<open>r\<close>, \<open>k\<close>: the argument \<open>Suc i\<close> stands for the index \<open>i\<close>.
\<close>

fun insertAndSplitKey_loop ::
  "BPlusTree \<Rightarrow> uint32 \<Rightarrow> uint32 \<Rightarrow> uint64 \<Rightarrow> uint32 \<Rightarrow> byte list option \<Rightarrow> nat \<Rightarrow>
   int \<Rightarrow> int \<Rightarrow> uint64 \<Rightarrow> (int \<times> int \<times> uint64 \<times> BPlusTree) option" where
  "insertAndSplitKey_loop b pageNo rightPageNo key child payload 0 l r k = Some (l, r, k, b)"
| "insertAndSplitKey_loop b pageNo rightPageNo key child payload (Suc i) l r k =
     do { ikey \<leftarrow> getKey b pageNo (int i);
          ichild \<leftarrow> getChild b pageNo (int i);
          ipayload \<leftarrow> getKeyPayload b pageNo ikey;
          icellptr \<leftarrow> getCellPtr b pageNo (int i);
          (l1, r1, k1, b1) \<leftarrow>
            (if k > ikey then
               (if r > 0 then do {
                  let r = r - 1;
                  b' \<leftarrow> setKey b rightPageNo r key;
                  b'' \<leftarrow> setChild b' rightPageNo r child payload;
                  Some (l, r, 0, b'')
                } else do {
                  let l = l - 1;
                  b' \<leftarrow> setKey b pageNo l key;
                  b'' \<leftarrow> setChild b' pageNo l child payload;
                  Some (l, r, 0, b'')
                })
             else Some (l, r, k, b));
          (l2, r2, b2) \<leftarrow>
            (if r1 > 0 then do {
               let r = r1 - 1;
               b' \<leftarrow> setKey b1 rightPageNo r ikey;
               b'' \<leftarrow> setChild b' rightPageNo r ichild ipayload;
               b''' \<leftarrow> setKey b'' pageNo (int i) 0;
               b'''' \<leftarrow> deleteCell b''' pageNo (int i);
               Some (l1, r, b'''')
             } else do {
               let l = l1 - 1;
               b' \<leftarrow> setKey b1 pageNo l ikey;
               b'' \<leftarrow> setCellPtr b' pageNo l icellptr;
               Some (l, r1, b'')
             });
          insertAndSplitKey_loop b2 pageNo rightPageNo key child payload i l2 r2 k1
        }"

definition insertAndSplitKey ::
  "BPlusTree \<Rightarrow> uint32 \<Rightarrow> uint64 \<Rightarrow> uint32 \<Rightarrow> byte list option \<Rightarrow> (uint32 \<times> BPlusTree) option" where
  "insertAndSplitKey b pageNo key child payload =
     do { (rightPageNo, b0) \<leftarrow> allocte b;
          let leftNumberOfKey = ceil (order b0);
          let rightNumberOfKey = order b0 - leftNumberOfKey + 1;
          (l, r, k, b1) \<leftarrow> insertAndSplitKey_loop b0 pageNo rightPageNo key child payload
                             (nat (order b0)) leftNumberOfKey rightNumberOfKey key;
          b2 \<leftarrow> (if k \<noteq> 0
                 then do { b' \<leftarrow> setKey b1 pageNo 0 key; setChild b' pageNo 0 child payload }
                 else Some b1);
          b3 \<leftarrow> setNumberOfKey b2 rightPageNo (of_int rightNumberOfKey);
          b4 \<leftarrow> setNumberOfKey b3 pageNo (of_int leftNumberOfKey);
          b5 \<leftarrow> setNext b4 pageNo rightPageNo;
          Some (rightPageNo, b5)
        }"

text \<open>
  \<open>insertKey\<close> and \<open>insertAndsplit\<close> call each other; the recursion climbs to the
  parent and is not bounded by the code, so \<open>insertKey\<close> is defined with the body of
  \<open>insertAndsplit\<close> in place, and \<open>insertAndsplit\<close> after it.
\<close>

partial_function (option) insertKey ::
  "BPlusTree \<Rightarrow> uint32 \<Rightarrow> uint64 \<Rightarrow> uint32 \<Rightarrow> byte list option \<Rightarrow> BPlusTree option" where
  "insertKey b pageNo key child payload =
     do { numberOfKey \<leftarrow> getNumberOfKey b pageNo;
          if numberOfKey \<noteq> of_int (order b) then insertAndNotSplit b pageNo key child payload
          else do {
            oldLeftMaxKey \<leftarrow> getMaxKey b pageNo;
            (rightPageNo, b1) \<leftarrow> insertAndSplitKey b pageNo key child payload;
            splitNodeType \<leftarrow> getNodeType b1 pageNo;
            b2 \<leftarrow> setNodeType b1 rightPageNo splitNodeType;
            parent \<leftarrow> getParent b2 pageNo;
            if parent = 0 then do {
              (newLeftPage, b3) \<leftarrow> allocte b2;
              b4 \<leftarrow> copy b3 pageNo newLeftPage;
              b5 \<leftarrow> setNodeType b4 newLeftPage splitNodeType;
              b6 \<leftarrow> insertAndSplitRoot b5 pageNo newLeftPage rightPageNo;
              b7 \<leftarrow> setChildParent b6 newLeftPage;
              setChildParent b7 rightPageNo
            } else do {
              newLeftMaxKey \<leftarrow> getMaxKey b2 pageNo;
              rightMaxKey \<leftarrow> getMaxKey b2 rightPageNo;
              b3 \<leftarrow> setParent b2 rightPageNo parent;
              b4 \<leftarrow> setChildParent b3 rightPageNo;
              b5 \<leftarrow> updateKey b4 parent oldLeftMaxKey newLeftMaxKey;
              insertKey b5 parent rightMaxKey rightPageNo None
            }
          }
        }"

definition insertAndsplit ::
  "BPlusTree \<Rightarrow> uint32 \<Rightarrow> uint64 \<Rightarrow> uint32 \<Rightarrow> byte list option \<Rightarrow> BPlusTree option" where
  "insertAndsplit b pageNo key child payload =
     do { oldLeftMaxKey \<leftarrow> getMaxKey b pageNo;
          (rightPageNo, b1) \<leftarrow> insertAndSplitKey b pageNo key child payload;
          splitNodeType \<leftarrow> getNodeType b1 pageNo;
          b2 \<leftarrow> setNodeType b1 rightPageNo splitNodeType;
          parent \<leftarrow> getParent b2 pageNo;
          if parent = 0 then do {
            (newLeftPage, b3) \<leftarrow> allocte b2;
            b4 \<leftarrow> copy b3 pageNo newLeftPage;
            b5 \<leftarrow> setNodeType b4 newLeftPage splitNodeType;
            b6 \<leftarrow> insertAndSplitRoot b5 pageNo newLeftPage rightPageNo;
            b7 \<leftarrow> setChildParent b6 newLeftPage;
            setChildParent b7 rightPageNo
          } else do {
            newLeftMaxKey \<leftarrow> getMaxKey b2 pageNo;
            rightMaxKey \<leftarrow> getMaxKey b2 rightPageNo;
            b3 \<leftarrow> setParent b2 rightPageNo parent;
            b4 \<leftarrow> setChildParent b3 rightPageNo;
            b5 \<leftarrow> updateKey b4 parent oldLeftMaxKey newLeftMaxKey;
            insertKey b5 parent rightMaxKey rightPageNo None
          }
        }"

definition Insert :: "BPlusTree \<Rightarrow> uint64 \<Rightarrow> byte list option \<Rightarrow> BPlusTree option" where
  "Insert b key payload = do { pageNo \<leftarrow> search b key; insertKey b pageNo key 0 payload }"

definition Get :: "BPlusTree \<Rightarrow> uint64 \<Rightarrow> byte list option option" where
  "Get b key = do { page \<leftarrow> search b key; getKeyPayload b page key }"

subsection \<open>Creation\<close>

fun CreateTree_loop :: "BPlusTree \<Rightarrow> int \<Rightarrow> nat \<Rightarrow> BPlusTree option" where
  "CreateTree_loop tree i 0 = Some tree"
| "CreateTree_loop tree i (Suc n) =
     do { t1 \<leftarrow> setPageNo tree (of_int i) (of_int i);
          t2 \<leftarrow> setUsed t1 (of_int i) nodeUnused;
          t3 \<leftarrow> setUsablePtr t2 (of_int i) offsetPayload;
          CreateTree_loop t3 (i + 1) n }"

definition CreateTree :: "int \<Rightarrow> BPlusTree option" where
  "CreateTree ord =
     do { let tree = \<lparr>data = replicate (pageSize * 32) 0, leaf = 0, order = ord\<rparr>;
          t1 \<leftarrow> CreateTree_loop tree 0 32;
          let t2 = t1\<lparr>leaf := rootPageNo\<rparr>;
          t3 \<leftarrow> setNodeType t2 rootPageNo nodeTypeLeaf;
          setUsed t3 rootPageNo nodeUsed }"

subsection \<open>Observations\<close>

text \<open>The keys in the live slots \<open>0 .. number_of_keys - 1\<close> of a page, in slot order.\<close>

fun slot_keys_loop :: "BPlusTree \<Rightarrow> uint32 \<Rightarrow> int \<Rightarrow> nat \<Rightarrow> uint64 list option" where
  "slot_keys_loop b page i 0 = Some []"
| "slot_keys_loop b page i (Suc n) =
     do { k \<leftarrow> getKey b page i; ks \<leftarrow> slot_keys_loop b page (i + 1) n; Some (k # ks) }"

definition slot_keys :: "BPlusTree \<Rightarrow> uint32 \<Rightarrow> uint64 list option" where
  "slot_keys b page =
     do { n \<leftarrow> getNumberOfKey b page; slot_keys_loop b page 0 (nat (uint n)) }"

text \<open>The tree of order 3 that holds the one key 10, with payload \<open>"a"\<close>.\<close>

definition tree_a :: BPlusTree where
  "tree_a = the (do { b0 \<leftarrow> CreateTree 3; Insert b0 10 (Some [97]) })"


subsection \<open>A tree image of the page buffer\<close>

text \<open>
  For running the code on a concrete tree inside the logic, the \<open>16384\<close> bytes of the
  buffer are held as a binary tree over the addresses: a leaf stands for a range of
  equal bytes, a node splits its range in two halves.  \<open>mt_list\<close> is the list of bytes a
  tree stands for; the lemmas below turn a read or a write of that list into a read or a
  write of the tree.  \<open>hide\<close> is the identity; it marks the subtrees that are already in
  normal form.
\<close>

datatype mt = MByte byte | MNode mt mt

definition hide :: "mt \<Rightarrow> mt" where
  "hide t = t"

definition mkN :: "mt \<Rightarrow> mt \<Rightarrow> mt" where
  "mkN l r = MNode l r"

fun mt_get :: "mt \<Rightarrow> nat \<Rightarrow> nat \<Rightarrow> byte" where
  "mt_get (MByte v) d a = v"
| "mt_get (MNode l r) 0 a = mt_get l 0 a"
| "mt_get (MNode l r) (Suc d) a = (if a < 2 ^ d then mt_get l d a else mt_get r d (a - 2 ^ d))"

fun mt_set :: "mt \<Rightarrow> nat \<Rightarrow> nat \<Rightarrow> byte \<Rightarrow> mt" where
  "mt_set t 0 a v = MByte v"
| "mt_set (MByte w) (Suc d) a v =
     (if a < 2 ^ d then MNode (mt_set (MByte w) d a v) (MByte w) else MNode (MByte w) (mt_set (MByte w) d (a - 2 ^ d) v))"
| "mt_set (MNode l r) (Suc d) a v =
     (if a < 2 ^ d then MNode (mt_set l d a v) r else MNode l (mt_set r d (a - 2 ^ d) v))"

definition mt_list :: "mt \<Rightarrow> nat \<Rightarrow> byte list" where
  "mt_list t d = map (mt_get t d) [0..<2 ^ d]"

named_theorems bt_eval


section \<open>Properties of the transaction engine\<close>

subsection \<open>Membership in a view\<close>

lemma inView_loop_mem: "inView_loop xs tid \<longleftrightarrow> tid \<in> trxID ` set xs"
  by (induction xs) auto

lemma inView_Some: "view t = Some v \<Longrightarrow> inView t w = Inr (w \<in> trxID ` set (view_trxIDs v))"
  by (simp add: inView_def inView_loop_mem)

subsection \<open>What a pool scan returns\<close>

lemma first_index_None:
  "first_index p i k = Inr None \<longleftrightarrow> (\<forall>j. i \<le> j \<and> j < i + k \<longrightarrow> p j = Inr False)"
proof (induction k arbitrary: i)
  case 0
  then show ?case by auto
next
  case (Suc k)
  show ?case
  proof (cases "p i")
    case (Inl e)
    then show ?thesis by (auto intro: exI [of _ i])
  next
    case (Inr b)
    show ?thesis
    proof (cases b)
      case True
      with Inr show ?thesis by (auto intro: exI [of _ i])
    next
      case False
      have "(\<forall>j. Suc i \<le> j \<and> j < Suc i + k \<longrightarrow> p j = Inr False) \<longleftrightarrow>
            (\<forall>j. i \<le> j \<and> j < i + Suc k \<longrightarrow> p j = Inr False)" (is "?L \<longleftrightarrow> ?R")
      proof
        assume l: ?L
        show ?R
        proof (intro allI impI)
          fix j assume j: "i \<le> j \<and> j < i + Suc k"
          show "p j = Inr False"
          proof (cases "j = i")
            case True
            with Inr False show ?thesis by simp
          next
            case ne: False
            with j have "Suc i \<le> j \<and> j < Suc i + k" by arith
            with l show ?thesis by blast
          qed
        qed
      next
        assume r: ?R
        show ?L
        proof (intro allI impI)
          fix j assume "Suc i \<le> j \<and> j < Suc i + k"
          then have "i \<le> j \<and> j < i + Suc k" by arith
          with r show "p j = Inr False" by blast
        qed
      qed
      with Inr False Suc.IH [of "Suc i"] show ?thesis by simp
    qed
  qed
qed

lemma first_index_Some:
  "first_index p i k = Inr (Some m) \<Longrightarrow>
     i \<le> m \<and> m < i + k \<and> p m = Inr True \<and> (\<forall>j. i \<le> j \<and> j < m \<longrightarrow> p j = Inr False)"
proof (induction k arbitrary: i)
  case 0
  then show ?case by simp
next
  case (Suc k)
  show ?case
  proof (cases "p i")
    case (Inl e)
    with Suc.prems show ?thesis by simp
  next
    case (Inr b)
    show ?thesis
    proof (cases b)
      case True
      with Inr Suc.prems show ?thesis by auto
    next
      case False
      with Inr Suc.prems have "first_index p (Suc i) k = Inr (Some m)" by simp
      from Suc.IH [OF this]
      have ih: "Suc i \<le> m" "m < Suc i + k" "p m = Inr True"
        "\<forall>j. Suc i \<le> j \<and> j < m \<longrightarrow> p j = Inr False" by auto
      have "\<forall>j. i \<le> j \<and> j < m \<longrightarrow> p j = Inr False"
      proof (intro allI impI)
        fix j assume j: "i \<le> j \<and> j < m"
        show "p j = Inr False"
        proof (cases "j = i")
          case True
          with Inr False show ?thesis by simp
        next
          case ne: False
          with j have "Suc i \<le> j \<and> j < m" by arith
          with ih(4) show ?thesis by blast
        qed
      qed
      with ih show ?thesis by simp
    qed
  qed
qed

lemma first_index_total:
  "(\<forall>j. i \<le> j \<and> j < i + k \<longrightarrow> (\<exists>b. p j = Inr b)) \<Longrightarrow> \<exists>r. first_index p i k = Inr r"
proof (induction k arbitrary: i)
  case 0
  then show ?case by simp
next
  case (Suc k)
  from Suc.prems obtain b where b: "p i = Inr b" by force
  show ?case
  proof (cases b)
    case True
    with b show ?thesis by simp
  next
    case False
    have "\<exists>r. first_index p (Suc i) k = Inr r"
      using Suc.prems by (intro Suc.IH) auto
    with b False show ?thesis by simp
  qed
qed

lemma first_index_found:
  "i \<le> m \<Longrightarrow> m < i + k \<Longrightarrow> p m = Inr True \<Longrightarrow>
   (\<forall>j. i \<le> j \<and> j < i + k \<longrightarrow> (\<exists>b. p j = Inr b)) \<Longrightarrow>
   \<exists>n. first_index p i k = Inr (Some n)"
proof -
  assume a: "i \<le> m" "m < i + k" "p m = Inr True"
    and t: "\<forall>j. i \<le> j \<and> j < i + k \<longrightarrow> (\<exists>b. p j = Inr b)"
  from first_index_total [OF t] obtain r where r: "first_index p i k = Inr r" by blast
  show ?thesis
  proof (cases r)
    case None
    with r first_index_None [of p i k] a show ?thesis by auto
  next
    case (Some n)
    with r show ?thesis by blast
  qed
qed

subsection \<open>C4: the read view captured by Begin\<close>

lemma createReadView_loop_filter:
  "createReadView_loop xs ids = ids @ filter (\<lambda>x. status x = uncommit) xs"
  by (induction xs arbitrary: ids) auto

lemma createReadView_eq:
  "createReadView c =
     (let act = filter (\<lambda>x. status x = uncommit) (trxIDs c) in
      ReadView (if act = [] then 0 else trxID (hd act)) (if act = [] then 0 else trxID (last act)) act)"
  by (auto simp: createReadView_def createReadView_loop_filter Let_def hd_conv_nth last_conv_nth)

lemma Begin_eq:
  "i < length (trxIDs c) \<Longrightarrow>
   Begin (Some i) c =
     Inr (c\<lparr>trxCounter := trxCounter c + 1,
            trxIDs := (trxIDs c)[i := Trx (trxCounter c + 1) uncommit
               (Some (createReadView (c\<lparr>trxCounter := trxCounter c + 1, trxIDs := mark_uncommit i c\<rparr>)))]\<rparr>)"
  by (simp add: Begin_def deref_trx_def Let_def mark_uncommit_def)

lemma step_length: "step x c = Inr c' \<Longrightarrow> length (trxIDs c') = length (trxIDs c)"
  by (cases x)
    (auto simp: Begin_def Commit_def Rollback_def Insert_trx_def Update_def deref_trx_def Let_def
          split: sum.splits option.splits if_splits prod.splits)

lemma step_view:
  "step x c = Inr c' \<Longrightarrow> x \<noteq> OpBegin (Some i) \<Longrightarrow> view (trxIDs c' ! i) = view (trxIDs c ! i)"
  by (cases x)
    (auto simp: Begin_def Commit_def Rollback_def Insert_trx_def Update_def deref_trx_def Let_def
          nth_list_update
          split: sum.splits option.splits if_splits prod.splits)

lemma run_view:
  "run ops c = Inr c' \<Longrightarrow> OpBegin (Some i) \<notin> set ops \<Longrightarrow> view (trxIDs c' ! i) = view (trxIDs c ! i)"
proof (induction ops arbitrary: c)
  case Nil
  then show ?case by simp
next
  case (Cons x xs)
  from Cons.prems(1) obtain c1 where s: "step x c = Inr c1" and r: "run xs c1 = Inr c'"
    by (auto split: sum.splits)
  from Cons.prems(2) have "x \<noteq> OpBegin (Some i)" "OpBegin (Some i) \<notin> set xs" by auto
  with Cons.IH [OF r] step_view [OF s] show ?case by simp
qed

text \<open>
  C4 (as amended).  \<open>Begin\<close> on a slot of the pool returns, and the view it stores
  holds exactly the pool entries that are uncommitted when the view is built (the caller
  included, already marked), in pool order; \<open>low_limit_id\<close> is the id of the first of
  them and \<open>up_limit_id\<close> the id of the last (0 if there were none).  No later
  \<open>Commit\<close>, \<open>Rollback\<close>, \<open>Insert\<close> or \<open>Update\<close>, and no \<open>Begin\<close> of another
  transaction, changes the view; a later \<open>Begin\<close> of the same transaction is excluded.
\<close>

theorem Begin_read_view:
  assumes "i < length (trxIDs ctx)"
  shows "\<exists>ctx' v. Begin (Some i) ctx = Inr ctx' \<and> view (trxIDs ctx' ! i) = Some v \<and>
           view_trxIDs v = filter (\<lambda>x. status x = uncommit) (mark_uncommit i ctx) \<and>
           lowLimitID v = (if view_trxIDs v = [] then 0 else trxID (hd (view_trxIDs v))) \<and>
           upLimitID v = (if view_trxIDs v = [] then 0 else trxID (last (view_trxIDs v))) \<and>
           (\<forall>ops ctx''. OpBegin (Some i) \<notin> set ops \<and> run ops ctx' = Inr ctx''
               \<longrightarrow> view (trxIDs ctx'' ! i) = Some v)"
proof -
  let ?v = "createReadView (ctx\<lparr>trxCounter := trxCounter ctx + 1, trxIDs := mark_uncommit i ctx\<rparr>)"
  let ?c = "ctx\<lparr>trxCounter := trxCounter ctx + 1,
            trxIDs := (trxIDs ctx)[i := Trx (trxCounter ctx + 1) uncommit (Some ?v)]\<rparr>"
  have b: "Begin (Some i) ctx = Inr ?c" using assms by (rule Begin_eq)
  have v: "view (trxIDs ?c ! i) = Some ?v" using assms by simp
  have ids: "view_trxIDs ?v = filter (\<lambda>x. status x = uncommit) (mark_uncommit i ctx)"
    by (simp add: createReadView_eq Let_def)
  have lo: "lowLimitID ?v = (if view_trxIDs ?v = [] then 0 else trxID (hd (view_trxIDs ?v)))"
    by (simp add: createReadView_eq Let_def)
  have up: "upLimitID ?v = (if view_trxIDs ?v = [] then 0 else trxID (last (view_trxIDs ?v)))"
    by (simp add: createReadView_eq Let_def)
  have later: "\<forall>ops ctx''. OpBegin (Some i) \<notin> set ops \<and> run ops ?c = Inr ctx''
               \<longrightarrow> view (trxIDs ctx'' ! i) = Some ?v"
    using run_view v by metis
  from b v ids lo up later show ?thesis by blast
qed

theorem Begin_read_view_witness:
  "0 < length (trxIDs CreateTrxContext) \<and>
   OpBegin (Some 0) \<notin> set [OpInsert (Some 0) ''a'', OpCommit (Some 0)] \<and>
   (\<exists>c1 c2. Begin (Some 0) CreateTrxContext = Inr c1 \<and>
      run [OpInsert (Some 0) ''a'', OpCommit (Some 0)] c1 = Inr c2 \<and>
      view (trxIDs c1 ! 0) = Some (ReadView 1 1 [Trx 1 uncommit None]) \<and>
      view (trxIDs c2 ! 0) = Some (ReadView 1 1 [Trx 1 uncommit None]))"
proof -
  have len: "0 < length (trxIDs CreateTrxContext)" by (simp add: CreateTrxContext_def)
  from Begin_read_view [OF len] obtain c1 v where
    b: "Begin (Some 0) CreateTrxContext = Inr c1" and
    v: "view (trxIDs c1 ! 0) = Some v" and
    later: "\<forall>ops ctx''. OpBegin (Some 0) \<notin> set ops \<and> run ops c1 = Inr ctx''
               \<longrightarrow> view (trxIDs ctx'' ! 0) = Some v"
    by blast
  have e: "(case Begin (Some 0) CreateTrxContext of Inl e \<Rightarrow> False
            | Inr c \<Rightarrow> view (trxIDs c ! 0) = Some (ReadView 1 1 [Trx 1 uncommit None]) \<and>
                (case run [OpInsert (Some 0) ''a'', OpCommit (Some 0)] c of
                   Inl e \<Rightarrow> False | Inr c' \<Rightarrow> True))"
    by code_simp
  with b v have v1: "v = ReadView 1 1 [Trx 1 uncommit None]" by simp
  from e b obtain c2 where r: "run [OpInsert (Some 0) ''a'', OpCommit (Some 0)] c1 = Inr c2"
    by (auto split: sum.splits)
  have n: "OpBegin (Some 0) \<notin> set [OpInsert (Some 0) ''a'', OpCommit (Some 0)]" by simp
  from later n r have "view (trxIDs c2 ! 0) = Some v" by blast
  with len n b r v v1 show ?thesis by blast
qed

text \<open>
  C4 as stated fails: a second \<open>Begin\<close> on the same transaction assigns a new view.
\<close>

theorem Begin_twice_counterexample:
  "AllocteTrx CreateTrxContext = Some 0 \<and>
   (case Begin (Some 0) CreateTrxContext of
      Inl e \<Rightarrow> False
    | Inr c1 \<Rightarrow>
        (case Begin (Some 0) c1 of
           Inl e \<Rightarrow> False
         | Inr c2 \<Rightarrow> view (trxIDs c1 ! 0) = Some (ReadView 1 1 [Trx 1 uncommit None]) \<and>
                      view (trxIDs c2 ! 0) \<noteq> view (trxIDs c1 ! 0)))"
  by code_simp

subsection \<open>C10: a transaction's own id and its view\<close>

lemma pool_ok_init: "pool_ok CreateTrxContext"
  by (simp add: pool_ok_def CreateTrxContext_def view_ok_def)

lemma set_update_subset: "x \<in> set (xs[i := y]) \<Longrightarrow> x = y \<or> x \<in> set xs"
  by (metis insert_iff set_update_subset_insert subsetD)

lemma pool_ok_Begin:
  assumes ok: "pool_ok c" and b: "Begin t c = Inr c'"
  shows "pool_ok c'"
proof -
  from b obtain i where t: "t = Some i" and i: "i < length (trxIDs c)"
    by (auto simp: Begin_def deref_trx_def Let_def split: option.splits if_splits)
  let ?n = "trxCounter c + 1"
  let ?v = "createReadView (c\<lparr>trxCounter := ?n, trxIDs := mark_uncommit i c\<rparr>)"
  let ?T = "Trx ?n uncommit (Some ?v)"
  from b t Begin_eq [OF i]
  have c': "c' = c\<lparr>trxCounter := ?n, trxIDs := (trxIDs c)[i := ?T]\<rparr>" by simp
  let ?act = "filter (\<lambda>x. status x = uncommit) (mark_uncommit i c)"
  have own: "Trx ?n uncommit (view (trxIDs c ! i)) \<in> set ?act"
    using i by (auto simp: mark_uncommit_def set_update_memI)
  then have ne: "?act \<noteq> []" by (metis empty_iff empty_set)
  have le: "\<forall>y \<in> set ?act. trxID y \<le> ?n"
  proof
    fix y assume "y \<in> set ?act"
    then have "y \<in> set (mark_uncommit i c)" by simp
    then have "y = Trx ?n uncommit (view (trxIDs c ! i)) \<or> y \<in> set (trxIDs c)"
      unfolding mark_uncommit_def by (rule set_update_subset)
    with ok show "trxID y \<le> ?n" by (auto simp: pool_ok_def)
  qed
  have v_ids: "view_trxIDs ?v = ?act" and v_lo: "lowLimitID ?v = trxID (hd ?act)"
    and v_up: "upLimitID ?v = trxID (last ?act)"
    using ne by (simp_all add: createReadView_eq Let_def)
  have m1: "?n \<in> trxID ` set ?act"
    using own by (rule rev_image_eqI) simp
  have m2: "trxID (hd ?act) \<in> trxID ` set ?act"
    using ne by (intro imageI hd_in_set)
  have m3: "trxID (last ?act) \<in> trxID ` set ?act"
    using ne by (intro imageI last_in_set)
  have T: "view_ok ?T"
    unfolding view_ok_def using m1 m2 m3 le by (simp add: v_ids v_lo v_up)
  show ?thesis
    unfolding pool_ok_def
  proof
    fix x assume "x \<in> set (trxIDs c')"
    then have "x = ?T \<or> x \<in> set (trxIDs c)"
      unfolding c' by (simp add: set_update_subset)
    then show "trxID x \<le> trxCounter c' \<and> view_ok x"
    proof
      assume "x = ?T"
      with T show ?thesis by (simp add: c')
    next
      assume "x \<in> set (trxIDs c)"
      with ok show ?thesis by (auto simp: pool_ok_def c')
    qed
  qed
qed

lemma pool_ok_status:
  assumes ok: "pool_ok c" and i: "i < length (trxIDs c)"
  shows "pool_ok (c\<lparr>trxIDs := (trxIDs c)[i := Trx (trxID (trxIDs c ! i)) s (view (trxIDs c ! i))]\<rparr>)"
  unfolding pool_ok_def
proof
  fix x
  assume "x \<in> set (trxIDs (c\<lparr>trxIDs := (trxIDs c)[i := Trx (trxID (trxIDs c ! i)) s (view (trxIDs c ! i))]\<rparr>))"
  then have "x = Trx (trxID (trxIDs c ! i)) s (view (trxIDs c ! i)) \<or> x \<in> set (trxIDs c)"
    by (simp add: set_update_subset)
  moreover from ok i have "trxID (trxIDs c ! i) \<le> trxCounter c \<and> view_ok (trxIDs c ! i)"
    by (simp add: pool_ok_def)
  ultimately show "trxID x \<le> trxCounter (c\<lparr>trxIDs := (trxIDs c)[i := Trx (trxID (trxIDs c ! i)) s (view (trxIDs c ! i))]\<rparr>) \<and> view_ok x"
    using ok by (auto simp: pool_ok_def view_ok_def split: option.splits)
qed

lemma pool_ok_step:
  assumes ok: "pool_ok c" and s: "step x c = Inr c'"
  shows "pool_ok c'"
proof (cases x)
  case (OpBegin t)
  with s ok show ?thesis by (auto intro: pool_ok_Begin)
next
  case (OpCommit t)
  with s obtain i where "i < length (trxIDs c)"
    "c' = c\<lparr>trxIDs := (trxIDs c)[i := Trx (trxID (trxIDs c ! i)) commit (view (trxIDs c ! i))]\<rparr>"
    by (auto simp: Commit_def deref_trx_def split: option.splits if_splits)
  with ok show ?thesis by (simp add: pool_ok_status)
next
  case (OpRollback t)
  with s obtain i where "i < length (trxIDs c)"
    "c' = c\<lparr>trxIDs := (trxIDs c)[i := Trx (trxID (trxIDs c ! i)) rollback (view (trxIDs c ! i))]\<rparr>"
    by (auto simp: Rollback_def deref_trx_def split: option.splits if_splits)
  with ok show ?thesis by (simp add: pool_ok_status)
next
  case (OpInsert t d)
  with s have "trxIDs c' = trxIDs c \<and> trxCounter c' = trxCounter c"
    by (auto simp: Insert_trx_def deref_trx_def Let_def split: sum.splits option.splits if_splits)
  with ok show ?thesis by (simp add: pool_ok_def)
next
  case (OpUpdate t rid d)
  with s have "trxIDs c' = trxIDs c \<and> trxCounter c' = trxCounter c"
    by (auto simp: Update_def deref_trx_def Let_def split: sum.splits option.splits if_splits)
  with ok show ?thesis by (simp add: pool_ok_def)
qed

lemma pool_ok_run: "pool_ok c \<Longrightarrow> run ops c = Inr c' \<Longrightarrow> pool_ok c'"
proof (induction ops arbitrary: c)
  case Nil
  then show ?case by simp
next
  case (Cons x xs)
  from Cons.prems(2) obtain c1 where s: "step x c = Inr c1" and r: "run xs c1 = Inr c'"
    by (auto split: sum.splits)
  from Cons.IH [OF pool_ok_step [OF Cons.prems(1) s] r] show ?case .
qed











subsection \<open>C1: the visibility check\<close>

text \<open>
  C1 (as amended).  For every transaction of the pool that has a read view, in every state
  reached from \<open>CreateTrxContext\<close> by a sequence of operations, \<open>check\<close> returns visible
  iff the writer is the transaction itself, or is below \<open>low_limit_id\<close>, or lies in
  \<open>(low_limit_id, up_limit_id]\<close> and is not one of the active ids.  For any transaction value
  with a view, the code's window is the closed range \<open>[low_limit_id, up_limit_id]\<close>
  (the two agree when \<open>low_limit_id\<close> is one of the active ids, as it is in the pool), and
  \<open>check\<close> returns not-visible for a writer above \<open>up_limit_id\<close>, and for a writer among
  the active ids, provided in both cases that the writer is neither the transaction itself
  nor below \<open>low_limit_id\<close>.
\<close>

theorem check_visibility:
  "(view t = Some v \<longrightarrow>
      check t w =
        Inr (w = trxID t \<or> w < lowLimitID v \<or>
             (lowLimitID v \<le> w \<and> w \<le> upLimitID v \<and> w \<notin> trxID ` set (view_trxIDs v)))
      \<and> (upLimitID v < w \<and> lowLimitID v \<le> w \<and> w \<noteq> trxID t \<longrightarrow> check t w = Inr False)
      \<and> (w \<in> trxID ` set (view_trxIDs v) \<and> lowLimitID v \<le> w \<and> w \<noteq> trxID t
           \<longrightarrow> check t w = Inr False))
   \<and> (run ops CreateTrxContext = Inr ctx \<and> i < length (trxIDs ctx)
        \<and> view (trxIDs ctx ! i) = Some u
        \<longrightarrow> check (trxIDs ctx ! i) w = Inr (spec_visible (trxIDs ctx ! i) u w))"
proof (intro conjI impI)
  assume "view t = Some v"
  then show "check t w =
        Inr (w = trxID t \<or> w < lowLimitID v \<or>
             (lowLimitID v \<le> w \<and> w \<le> upLimitID v \<and> w \<notin> trxID ` set (view_trxIDs v)))"
    by (auto simp: check_def inView_Some Let_def split: bool.splits)
next
  assume "view t = Some v" "upLimitID v < w \<and> lowLimitID v \<le> w \<and> w \<noteq> trxID t"
  then show "check t w = Inr False"
    by (auto simp: check_def inView_Some Let_def split: bool.splits)
next
  assume "view t = Some v"
    "w \<in> trxID ` set (view_trxIDs v) \<and> lowLimitID v \<le> w \<and> w \<noteq> trxID t"
  then show "check t w = Inr False"
    by (auto simp: check_def inView_Some Let_def split: bool.splits)
next
  assume a: "run ops CreateTrxContext = Inr ctx \<and> i < length (trxIDs ctx)
        \<and> view (trxIDs ctx ! i) = Some u"
  with pool_ok_run [OF pool_ok_init, of ops ctx]
  have "view_ok (trxIDs ctx ! i)" by (simp add: pool_ok_def)
  with a have low: "lowLimitID u \<in> trxID ` set (view_trxIDs u)" by (simp add: view_ok_def)
  from a have "view (trxIDs ctx ! i) = Some u" by simp
  have ne: "w \<notin> trxID ` set (view_trxIDs u) \<Longrightarrow> w \<noteq> lowLimitID u"
    using low by auto
  have "check (trxIDs ctx ! i) w =
        Inr (w = trxID (trxIDs ctx ! i) \<or> w < lowLimitID u \<or>
             (lowLimitID u \<le> w \<and> w \<le> upLimitID u \<and> w \<notin> trxID ` set (view_trxIDs u)))"
    using a by (auto simp: check_def inView_Some Let_def split: bool.splits)
  also have "(w = trxID (trxIDs ctx ! i) \<or> w < lowLimitID u \<or>
             (lowLimitID u \<le> w \<and> w \<le> upLimitID u \<and> w \<notin> trxID ` set (view_trxIDs u)))
      = spec_visible (trxIDs ctx ! i) u w"
    unfolding spec_visible_def using ne by fastforce
  finally show "check (trxIDs ctx ! i) w = Inr (spec_visible (trxIDs ctx ! i) u w)" .
qed

theorem check_visibility_witness:
  "\<exists>ctx v. run [OpBegin (Some 0), OpBegin (Some 1)] CreateTrxContext = Inr ctx
     \<and> 1 < length (trxIDs ctx) \<and> view (trxIDs ctx ! 1) = Some v
     \<and> trxID (trxIDs ctx ! 1) = 2 \<and> lowLimitID v = 1 \<and> upLimitID v = 2
     \<and> 1 \<in> trxID ` set (view_trxIDs v)
     \<and> check (trxIDs ctx ! 1) 3 = Inr False
     \<and> check (trxIDs ctx ! 1) 1 = Inr False
     \<and> check (trxIDs ctx ! 1) 0 = Inr (spec_visible (trxIDs ctx ! 1) v 0)"
proof -
  have e: "(case run [OpBegin (Some 0), OpBegin (Some 1)] CreateTrxContext of
              Inl e \<Rightarrow> False
            | Inr c \<Rightarrow> 1 < length (trxIDs c) \<and> trxID (trxIDs c ! 1) = 2 \<and>
                (case view (trxIDs c ! 1) of
                   None \<Rightarrow> False
                 | Some v \<Rightarrow> lowLimitID v = 1 \<and> upLimitID v = 2 \<and> map trxID (view_trxIDs v) = [1, 2]))"
    by code_simp
  then obtain ctx v where r: "run [OpBegin (Some 0), OpBegin (Some 1)] CreateTrxContext = Inr ctx"
    and l: "1 < length (trxIDs ctx)" and v: "view (trxIDs ctx ! 1) = Some v"
    and t: "trxID (trxIDs ctx ! 1) = 2" and lo: "lowLimitID v = 1" and up: "upLimitID v = 2"
    and ids: "map trxID (view_trxIDs v) = [1, 2]"
    by (auto split: sum.splits option.splits)
  from ids have "set (map trxID (view_trxIDs v)) = {1, 2}" by simp
  then have m: "trxID ` set (view_trxIDs v) = {1, 2}" by simp
  from check_visibility [of "trxIDs ctx ! 1" v 3 "[OpBegin (Some 0), OpBegin (Some 1)]" ctx 1 v]
    v t lo up m
  have c3: "check (trxIDs ctx ! 1) 3 = Inr False" by simp
  from check_visibility [of "trxIDs ctx ! 1" v 1 "[OpBegin (Some 0), OpBegin (Some 1)]" ctx 1 v]
    v t lo up m
  have c1: "check (trxIDs ctx ! 1) 1 = Inr False" by simp
  from check_visibility [of "trxIDs ctx ! 1" v 0 "[OpBegin (Some 0), OpBegin (Some 1)]" ctx 1 v]
  have "run [OpBegin (Some 0), OpBegin (Some 1)] CreateTrxContext = Inr ctx \<and>
        1 < length (trxIDs ctx) \<and> view (trxIDs ctx ! 1) = Some v \<longrightarrow>
        check (trxIDs ctx ! 1) 0 = Inr (spec_visible (trxIDs ctx ! 1) v 0)"
    by (rule conjunct2)
  with r l v
  have c0: "check (trxIDs ctx ! 1) 0 = Inr (spec_visible (trxIDs ctx ! 1) v 0)" by blast
  from r l v t lo up m c3 c1 c0 show ?thesis by auto
qed

text \<open>
  C1 as stated fails in its last two clauses.  After \<open>Begin\<close> on slot 0, \<open>Begin\<close> on slot 1
  and two more \<open>Begin\<close> on slot 0, the transaction in slot 0 has id 4 and the view
  \<open>[4, 2]\<close> with lower limit 4 and upper limit 2.  The writer 3 is above the upper limit and
  visible; the writer 2 is one of the active ids, is not the transaction's own id, and is
  visible.
\<close>

theorem check_counterexample:
  "(case run [OpBegin (Some 0), OpBegin (Some 1), OpBegin (Some 0), OpBegin (Some 0)]
          CreateTrxContext of
      Inl e \<Rightarrow> False
    | Inr c \<Rightarrow>
        (case view (trxIDs c ! 0) of
           None \<Rightarrow> False
         | Some v \<Rightarrow>
             trxID (trxIDs c ! 0) = 4 \<and> lowLimitID v = 4 \<and> upLimitID v = 2 \<and>
             map trxID (view_trxIDs v) = [4, 2] \<and>
             upLimitID v < 3 \<and> check (trxIDs c ! 0) 3 = Inr True \<and>
             check (trxIDs c ! 0) 2 = Inr True))"
  by code_simp

subsection \<open>C8: exhausted pools\<close>

lemma scan_all_False:
  assumes "length pool = n" and "\<forall>r \<in> set pool. rowID r \<noteq> v"
  shows "first_index (rowID_is pool v) 0 n = Inr None"
proof -
  from assms have "\<forall>j. 0 \<le> j \<and> j < 0 + n \<longrightarrow> rowID_is pool v j = Inr False"
    by (simp add: rowID_is_def)
  then show ?thesis by (simp only: first_index_None)
qed

lemma scan_total:
  assumes "length pool = n"
  shows "\<exists>r. first_index (rowID_is pool v) 0 n = Inr r"
proof -
  from assms have "\<forall>j. 0 \<le> j \<and> j < 0 + n \<longrightarrow> (\<exists>b. rowID_is pool v j = Inr b)"
    by (simp add: rowID_is_def)
  then show ?thesis by (rule first_index_total)
qed

lemma scan_found:
  assumes "length pool = n" and "\<exists>r \<in> set pool. rowID r = v"
  shows "\<exists>j. first_index (rowID_is pool v) 0 n = Inr (Some j) \<and> j < n \<and> rowID (pool ! j) = v"
proof -
  from assms(2) obtain m where m: "m < length pool" "rowID (pool ! m) = v"
    by (auto simp: in_set_conv_nth)
  have tot: "\<forall>j. 0 \<le> j \<and> j < 0 + n \<longrightarrow> (\<exists>b. rowID_is pool v j = Inr b)"
    using assms(1) by (simp add: rowID_is_def)
  have "rowID_is pool v m = Inr True" using m by (simp add: rowID_is_def)
  from first_index_found [OF _ _ this tot] m assms(1)
  obtain j where j: "first_index (rowID_is pool v) 0 n = Inr (Some j)" by auto
  from first_index_Some [OF j] assms(1) have "j < n \<and> rowID (pool ! j) = v"
    by (auto simp: rowID_is_def split: if_splits)
  with j show ?thesis by blast
qed

lemma AllocteTrx_none:
  assumes "\<forall>x \<in> set (trxIDs ctx). status x \<noteq> unused"
  shows "AllocteTrx ctx = None"
proof -
  from assms have "\<forall>j. 0 \<le> j \<and> j < 0 + length (trxIDs ctx) \<longrightarrow>
      Inr (status (trxIDs ctx ! j) = unused) = (Inr False :: bool result)"
    by simp
  then have "first_index (\<lambda>i. Inr (status (trxIDs ctx ! i) = unused)) 0 (length (trxIDs ctx)) = Inr None"
    by (simp only: first_index_None)
  then show ?thesis by (simp add: AllocteTrx_def)
qed

text \<open>
  C8 (as amended).  \<open>AllocteTrx\<close> returns nil when no slot of the transaction pool is
  unused.  When the data pool has no free slot, \<open>allocteRecord\<close> returns nil and
  \<open>Insert\<close> panics on it; when the undo pool has no free slot, \<open>allocteUndo\<close> returns nil
  and \<open>Update\<close> panics on it.
\<close>

theorem pool_exhaustion:
  "((\<forall>x \<in> set (trxIDs ctx). status x \<noteq> unused) \<longrightarrow> AllocteTrx ctx = None)
   \<and> (length (dataPool ctx) = length (trxIDs ctx) \<and> (\<forall>r \<in> set (dataPool ctx). rowID r \<noteq> 0)
        \<longrightarrow> allocteRecord ctx = Inr None \<and> Insert_trx t ctx d = Inl NilDeref)
   \<and> (length (dataPool ctx) = length (trxIDs ctx) \<and> length (undo ctx) = length (trxIDs ctx)
        \<and> (\<forall>r \<in> set (undo ctx). rowID r \<noteq> 0)
        \<longrightarrow> allocteUndo ctx = Inr None \<and> Update t ctx rid d = Inl NilDeref)"
proof (intro conjI impI)
  assume "\<forall>x \<in> set (trxIDs ctx). status x \<noteq> unused"
  then show "AllocteTrx ctx = None" by (rule AllocteTrx_none)
next
  assume a: "length (dataPool ctx) = length (trxIDs ctx) \<and> (\<forall>r \<in> set (dataPool ctx). rowID r \<noteq> 0)"
  then show r: "allocteRecord ctx = Inr None"
    by (simp add: allocteRecord_def scan_all_False)
  then show "Insert_trx t ctx d = Inl NilDeref" by (simp add: Insert_trx_def)
next
  assume a: "length (dataPool ctx) = length (trxIDs ctx) \<and> length (undo ctx) = length (trxIDs ctx)
        \<and> (\<forall>r \<in> set (undo ctx). rowID r \<noteq> 0)"
  then show u: "allocteUndo ctx = Inr None"
    by (simp add: allocteUndo_def scan_all_False)
  from a scan_total [of "dataPool ctx" "length (trxIDs ctx)" rid]
  obtain ro where "findRecord ctx rid = Inr ro" by (auto simp: findRecord_def)
  with u show "Update t ctx rid d = Inl NilDeref"
    by (simp add: Update_def split: option.splits)
qed

theorem pool_exhaustion_witness:
  "unused \<notin> status ` set (trxIDs exhausted_ctx)
   \<and> length (dataPool exhausted_ctx) = length (trxIDs exhausted_ctx)
   \<and> length (undo exhausted_ctx) = length (trxIDs exhausted_ctx)
   \<and> 0 \<notin> rowID ` set (dataPool exhausted_ctx)
   \<and> 0 \<notin> rowID ` set (undo exhausted_ctx)
   \<and> AllocteTrx exhausted_ctx = None
   \<and> Insert_trx (Some 0) exhausted_ctx ''x'' = Inl NilDeref
   \<and> Update (Some 0) exhausted_ctx 1 ''x'' = Inl NilDeref"
  using pool_exhaustion [of exhausted_ctx "Some 0" "''x''" 1]
  by (simp add: exhausted_ctx_def zero_record_def)


lemma run_append:
  "run (xs @ ys) c = (case run xs c of Inl e \<Rightarrow> Inl e | Inr c' \<Rightarrow> run ys c')"
  by (induction xs arbitrary: c) (auto split: sum.splits)

lemma allocteRecord_filled:
  assumes "filled n c"
  shows "allocteRecord c = Inr (if n < length (trxIDs c) then Some n else None)"
proof -
  let ?p = "rowID_is (dataPool c) 0"
  let ?L = "length (trxIDs c)"
  from assms have len: "length (dataPool c) = ?L"
    and z: "\<forall>k < ?L. (rowID (dataPool c ! k) = 0) = (n \<le> k)"
    by (simp_all add: filled_def)
  have p: "\<forall>k < ?L. ?p k = Inr (n \<le> k)"
    using len z by (simp add: rowID_is_def)
  show ?thesis
  proof (cases "n < ?L")
    case True
    have tot: "\<forall>j. 0 \<le> j \<and> j < 0 + ?L \<longrightarrow> (\<exists>b. ?p j = Inr b)" using p by simp
    from p True have "?p n = Inr True" by simp
    from first_index_found [OF _ _ this tot] True
    obtain m where m: "first_index ?p 0 ?L = Inr (Some m)" by auto
    from first_index_Some [OF m]
    have m1: "m < ?L" "?p m = Inr True" "\<forall>j. j < m \<longrightarrow> ?p j = Inr False" by auto
    from m1(1,2) p have "n \<le> m" by simp
    moreover have "\<not> n < m"
    proof
      assume "n < m"
      with m1(3) have "?p n = Inr False" by simp
      with \<open>?p n = Inr True\<close> show False by simp
    qed
    ultimately have "m = n" by simp
    with m True show ?thesis by (simp add: allocteRecord_def)
  next
    case False
    with p have "\<forall>j. 0 \<le> j \<and> j < 0 + ?L \<longrightarrow> ?p j = Inr False" by simp
    then have "first_index ?p 0 ?L = Inr None" by (simp only: first_index_None)
    with False show ?thesis by (simp add: allocteRecord_def)
  qed
qed

lemma Insert_filled:
  assumes f: "filled n c" and n: "n < length (trxIDs c)" and i: "i < length (trxIDs c)"
  shows "\<exists>c'. Insert_trx (Some i) c d = Inr c' \<and> filled (Suc n) c' \<and> trxIDs c' = trxIDs c"
proof -
  from f have len: "length (dataPool c) = length (trxIDs c)" and rc: "rowCounter c = int n"
    and z: "\<forall>k < length (dataPool c). (rowID (dataPool c ! k) = 0) = (n \<le> k)"
    by (simp_all add: filled_def)
  let ?r = "(dataPool c ! n)\<lparr>rec_data := d, rec_trxID := trxID (trxIDs c ! i), rowID := int n + 1\<rparr>"
  let ?c = "c\<lparr>dataPool := (dataPool c)[n := ?r], rowCounter := int n + 1\<rparr>"
  have e: "Insert_trx (Some i) c d = Inr ?c"
    using allocteRecord_filled [OF f] n i rc
    by (simp add: Insert_trx_def deref_trx_def Let_def)
  have "filled (Suc n) ?c"
    unfolding filled_def using len z n by (auto simp: nth_list_update)
  with e show ?thesis by auto
qed

lemma Insert_full:
  assumes f: "filled n c" and n: "length (trxIDs c) \<le> n"
  shows "Insert_trx t c d = Inl NilDeref"
  using allocteRecord_filled [OF f] n by (simp add: Insert_trx_def)

lemma run_Insert_filled:
  "filled m c \<Longrightarrow> m + n \<le> length (trxIDs c) \<Longrightarrow> i < length (trxIDs c) \<Longrightarrow>
   \<exists>c'. run (replicate n (OpInsert (Some i) d)) c = Inr c' \<and> filled (m + n) c' \<and>
        trxIDs c' = trxIDs c"
proof (induction n arbitrary: m c)
  case 0
  then show ?case by simp
next
  case (Suc n)
  from Suc.prems have "m < length (trxIDs c)" by simp
  from Insert_filled [OF Suc.prems(1) this Suc.prems(3), of d]
  obtain c1 where c1: "Insert_trx (Some i) c d = Inr c1" "filled (Suc m) c1" "trxIDs c1 = trxIDs c"
    by blast
  from Suc.IH [of "Suc m" c1] c1 Suc.prems
  obtain c' where "run (replicate n (OpInsert (Some i) d)) c1 = Inr c'" "filled (Suc m + n) c'"
    "trxIDs c' = trxIDs c1" by auto
  with c1 show ?case by simp
qed

lemma filled_Begin:
  "filled n c \<Longrightarrow> Begin t c = Inr c' \<Longrightarrow> filled n c' \<and> length (trxIDs c') = length (trxIDs c)"
  by (auto simp: filled_def Begin_def deref_trx_def Let_def split: option.splits if_splits)

lemma filled_init: "filled 0 CreateTrxContext"
  by (simp add: filled_def CreateTrxContext_def zero_record_def)

text \<open>
  C8 as stated fails: after 1024 calls of \<open>Insert\<close> the data pool is full, and the next
  \<open>Insert\<close> panics with a nil dereference.
\<close>

theorem Insert_full_pool_counterexample:
  "\<not> is_fault (run (OpBegin (Some 0) # replicate 1024 (OpInsert (Some 0) ''x'')) CreateTrxContext)
   \<and> run (OpBegin (Some 0) # replicate 1024 (OpInsert (Some 0) ''x'') @ [OpInsert (Some 0) ''x''])
        CreateTrxContext = Inl NilDeref"
proof -
  have l0: "(0::nat) < length (trxIDs CreateTrxContext)" by (simp add: CreateTrxContext_def)
  from Begin_eq [OF l0] obtain c1 where b: "Begin (Some 0) CreateTrxContext = Inr c1" by blast
  from filled_Begin [OF filled_init b]
  have f1: "filled 0 c1" and l1: "length (trxIDs c1) = 1024" by (simp_all add: CreateTrxContext_def)
  from run_Insert_filled [OF f1, of 1024 0 "''x''"] l1
  obtain c2 where r: "run (replicate 1024 (OpInsert (Some 0) ''x'')) c1 = Inr c2"
    and f2: "filled 1024 c2" and l2: "trxIDs c2 = trxIDs c1" by auto
  from Insert_full [OF f2] l1 l2 have "Insert_trx (Some 0) c2 ''x'' = Inl NilDeref" by simp
  with b r show ?thesis by (simp add: is_fault_def run_append)
qed

subsection \<open>C9: Update of a row id that no slot carries\<close>

lemma scan_first:
  assumes "length pool = n" and "first_index (rowID_is pool v) 0 n = Inr (Some j)"
  shows "j < n \<and> rowID (pool ! j) = v \<and> (\<forall>m<j. rowID (pool ! m) \<noteq> v)"
proof -
  from first_index_Some [OF assms(2)]
  have a: "j < n" "rowID_is pool v j = Inr True"
    "\<forall>m. 0 \<le> m \<and> m < j \<longrightarrow> rowID_is pool v m = Inr False" by auto
  from a(1,2) assms(1) have "rowID (pool ! j) = v" by (simp add: rowID_is_def)
  moreover have "\<forall>m<j. rowID (pool ! m) \<noteq> v"
  proof (intro allI impI)
    fix m assume m: "m < j"
    with a(3) have "rowID_is pool v m = Inr False" by simp
    moreover from m a(1) assms(1) have "m < length pool" by simp
    ultimately show "rowID (pool ! m) \<noteq> v" by (simp add: rowID_is_def)
  qed
  ultimately show ?thesis using a(1) by simp
qed

text \<open>
  C9 (as amended).  When no slot of the data pool, free or taken, carries the given row id,
  \<open>findRecord\<close> returns nil and \<open>Update\<close> panics with a nil dereference; an \<open>Update\<close>
  that does not panic had a slot with that row id; \<open>Update\<close> on a nil receiver panics.
  When a slot carries the row id, the undo pool has a slot with row id 0 and the receiver is
  a transaction of the pool, \<open>Update\<close> does not panic: \<open>findRecord\<close> returns the first slot
  with that row id, and \<open>Update\<close> saves that slot's id and data in the undo entry, links the
  entry in front of the slot's chain, and stores the receiver's id and the new data in the
  slot.  Free slots carry row id 0, so for row id 0 that slot is the first free slot, the one
  that \<open>allocteRecord\<close> returns.
\<close>

theorem Update_missing_row:
  assumes "length (dataPool ctx) = length (trxIDs ctx)"
    and "length (undo ctx) = length (trxIDs ctx)"
  shows "((\<forall>r \<in> set (dataPool ctx). rowID r \<noteq> rid)
            \<longrightarrow> findRecord ctx rid = Inr None \<and> Update t ctx rid d = Inl NilDeref)
       \<and> (\<not> is_fault (Update t ctx rid d) \<longrightarrow> (\<exists>r \<in> set (dataPool ctx). rowID r = rid))
       \<and> (t = None \<longrightarrow> Update t ctx rid d = Inl NilDeref)
       \<and> ((\<exists>r \<in> set (dataPool ctx). rowID r = rid) \<and> (\<exists>u \<in> set (undo ctx). rowID u = 0)
            \<and> t = Some i \<and> i < length (trxIDs ctx)
            \<longrightarrow> (\<exists>j k c'. findRecord ctx rid = Inr (Some j) \<and> allocteUndo ctx = Inr (Some k)
                     \<and> j < length (dataPool ctx) \<and> rowID (dataPool ctx ! j) = rid
                     \<and> (\<forall>m<j. rowID (dataPool ctx ! m) \<noteq> rid)
                     \<and> (rid = 0 \<longrightarrow> allocteRecord ctx = Inr (Some j))
                     \<and> Update t ctx rid d = Inr c'
                     \<and> dataPool c' = (dataPool ctx)[j := (dataPool ctx ! j)
                           \<lparr>rollPtr := Some k, rec_trxID := trxID (trxIDs ctx ! i), rec_data := d\<rparr>]
                     \<and> undo c' = (undo ctx)[k :=
                           (case rollPtr (dataPool ctx ! j) of
                              None \<Rightarrow> (undo ctx ! k)
                                 \<lparr>rec_trxID := rec_trxID (dataPool ctx ! j),
                                  rec_data := rec_data (dataPool ctx ! j)\<rparr>
                            | Some u1 \<Rightarrow> (undo ctx ! k)
                                 \<lparr>rec_trxID := rec_trxID (dataPool ctx ! j),
                                  rec_data := rec_data (dataPool ctx ! j),
                                  rollPtr := Some u1\<rparr>)]
                     \<and> trxIDs c' = trxIDs ctx \<and> trxCounter c' = trxCounter ctx
                     \<and> rowCounter c' = rowCounter ctx))"
proof -
  from scan_total [OF assms(2), of 0] obtain uo where u: "allocteUndo ctx = Inr uo"
    by (auto simp: allocteUndo_def)
  from scan_total [OF assms(1), of rid] obtain ro where r: "findRecord ctx rid = Inr ro"
    by (auto simp: findRecord_def)
  have 1: "findRecord ctx rid = Inr None \<and> Update t ctx rid d = Inl NilDeref"
    if "\<forall>r \<in> set (dataPool ctx). rowID r \<noteq> rid"
  proof -
    from that assms(1) have "findRecord ctx rid = Inr None"
      by (simp add: findRecord_def scan_all_False)
    with u show ?thesis by (simp add: Update_def)
  qed
  have 2: "\<exists>r \<in> set (dataPool ctx). rowID r = rid" if "\<not> is_fault (Update t ctx rid d)"
  proof (rule ccontr)
    assume "\<not> (\<exists>r \<in> set (dataPool ctx). rowID r = rid)"
    then have "\<forall>r \<in> set (dataPool ctx). rowID r \<noteq> rid" by blast
    from 1 [OF this] that show False by (simp add: is_fault_def)
  qed
  have 3: "Update t ctx rid d = Inl NilDeref" if "t = None"
    using that u r
    by (simp add: Update_def deref_trx_def Let_def split: option.splits)
  have 4: "\<exists>j k c'. findRecord ctx rid = Inr (Some j) \<and> allocteUndo ctx = Inr (Some k)
                     \<and> j < length (dataPool ctx) \<and> rowID (dataPool ctx ! j) = rid
                     \<and> (\<forall>m<j. rowID (dataPool ctx ! m) \<noteq> rid)
                     \<and> (rid = 0 \<longrightarrow> allocteRecord ctx = Inr (Some j))
                     \<and> Update t ctx rid d = Inr c'
                     \<and> dataPool c' = (dataPool ctx)[j := (dataPool ctx ! j)
                           \<lparr>rollPtr := Some k, rec_trxID := trxID (trxIDs ctx ! i), rec_data := d\<rparr>]
                     \<and> undo c' = (undo ctx)[k :=
                           (case rollPtr (dataPool ctx ! j) of
                              None \<Rightarrow> (undo ctx ! k)
                                 \<lparr>rec_trxID := rec_trxID (dataPool ctx ! j),
                                  rec_data := rec_data (dataPool ctx ! j)\<rparr>
                            | Some u1 \<Rightarrow> (undo ctx ! k)
                                 \<lparr>rec_trxID := rec_trxID (dataPool ctx ! j),
                                  rec_data := rec_data (dataPool ctx ! j),
                                  rollPtr := Some u1\<rparr>)]
                     \<and> trxIDs c' = trxIDs ctx \<and> trxCounter c' = trxCounter ctx
                     \<and> rowCounter c' = rowCounter ctx"
    if h: "(\<exists>r \<in> set (dataPool ctx). rowID r = rid) \<and> (\<exists>u \<in> set (undo ctx). rowID u = 0)
            \<and> t = Some i \<and> i < length (trxIDs ctx)"
  proof -
    from h have hr: "\<exists>r \<in> set (dataPool ctx). rowID r = rid"
      and hu: "\<exists>u \<in> set (undo ctx). rowID u = 0"
      and t: "t = Some i" and i: "i < length (trxIDs ctx)" by auto
    from scan_found [OF assms(1) hr] obtain j where
      j: "findRecord ctx rid = Inr (Some j)" by (auto simp: findRecord_def)
    from scan_found [OF assms(2) hu] obtain k where
      k: "allocteUndo ctx = Inr (Some k)" by (auto simp: allocteUndo_def)
    from j have "first_index (rowID_is (dataPool ctx) rid) 0 (length (trxIDs ctx)) = Inr (Some j)"
      by (simp add: findRecord_def)
    from scan_first [OF assms(1) this] assms(1)
    have f: "j < length (dataPool ctx)" "rowID (dataPool ctx ! j) = rid"
      "\<forall>m<j. rowID (dataPool ctx ! m) \<noteq> rid" by auto
    have a: "rid = 0 \<longrightarrow> allocteRecord ctx = Inr (Some j)"
      using j by (auto simp: findRecord_def allocteRecord_def)
    show ?thesis
      using j k f a t i
      by (cases "rollPtr (dataPool ctx ! j)")
         (simp_all add: Update_def deref_trx_def Let_def)
  qed
  from 1 2 3 4 show ?thesis by blast
qed

theorem Update_missing_row_witness:
  "length (dataPool CreateTrxContext) = length (trxIDs CreateTrxContext)
   \<and> length (undo CreateTrxContext) = length (trxIDs CreateTrxContext)
   \<and> 7 \<notin> rowID ` set (dataPool CreateTrxContext)
   \<and> Update (Some 0) CreateTrxContext 7 ''x'' = Inl NilDeref
   \<and> (\<exists>r \<in> set (dataPool CreateTrxContext). rowID r = 0)
   \<and> (\<exists>u \<in> set (undo CreateTrxContext). rowID u = 0)
   \<and> 0 < length (trxIDs CreateTrxContext)
   \<and> (\<exists>j k c'. findRecord CreateTrxContext 0 = Inr (Some j)
         \<and> allocteUndo CreateTrxContext = Inr (Some k)
         \<and> Update (Some 0) CreateTrxContext 0 ''x'' = Inr c'
         \<and> dataPool c' = (dataPool CreateTrxContext)[j := (dataPool CreateTrxContext ! j)
               \<lparr>rollPtr := Some k, rec_trxID := trxID (trxIDs CreateTrxContext ! 0),
                rec_data := ''x''\<rparr>])"
proof -
  have a: "length (dataPool CreateTrxContext) = length (trxIDs CreateTrxContext)"
    "length (undo CreateTrxContext) = length (trxIDs CreateTrxContext)"
    "7 \<notin> rowID ` set (dataPool CreateTrxContext)"
    "\<exists>r \<in> set (dataPool CreateTrxContext). rowID r = 0"
    "\<exists>u \<in> set (undo CreateTrxContext). rowID u = 0"
    "0 < length (trxIDs CreateTrxContext)"
    by (auto simp: CreateTrxContext_def zero_record_def)
  from a(3) have n: "\<forall>r \<in> set (dataPool CreateTrxContext). rowID r \<noteq> 7" by auto
  from Update_missing_row [OF a(1,2), of 7 "Some 0" "''x''" 0]
  have "(\<forall>r \<in> set (dataPool CreateTrxContext). rowID r \<noteq> 7)
            \<longrightarrow> findRecord CreateTrxContext 7 = Inr None
                \<and> Update (Some 0) CreateTrxContext 7 ''x'' = Inl NilDeref"
    by (rule conjunct1)
  with n have b: "Update (Some 0) CreateTrxContext 7 ''x'' = Inl NilDeref" by simp
  from Update_missing_row [OF a(1,2), of 0 "Some 0" "''x''" 0]
  have "(\<exists>r \<in> set (dataPool CreateTrxContext). rowID r = 0)
            \<and> (\<exists>u \<in> set (undo CreateTrxContext). rowID u = 0)
            \<and> Some 0 = Some (0::nat) \<and> 0 < length (trxIDs CreateTrxContext)
            \<longrightarrow> (\<exists>j k c'. findRecord CreateTrxContext 0 = Inr (Some j)
         \<and> allocteUndo CreateTrxContext = Inr (Some k)
         \<and> Update (Some 0) CreateTrxContext 0 ''x'' = Inr c'
         \<and> dataPool c' = (dataPool CreateTrxContext)[j := (dataPool CreateTrxContext ! j)
               \<lparr>rollPtr := Some k, rec_trxID := trxID (trxIDs CreateTrxContext ! 0),
                rec_data := ''x''\<rparr>])"
    by blast
  with a(4,5,6)
  have c: "\<exists>j k c'. findRecord CreateTrxContext 0 = Inr (Some j)
         \<and> allocteUndo CreateTrxContext = Inr (Some k)
         \<and> Update (Some 0) CreateTrxContext 0 ''x'' = Inr c'
         \<and> dataPool c' = (dataPool CreateTrxContext)[j := (dataPool CreateTrxContext ! j)
               \<lparr>rollPtr := Some k, rec_trxID := trxID (trxIDs CreateTrxContext ! 0),
                rec_data := ''x''\<rparr>]"
    by blast
  from a b c show ?thesis by blast
qed

text \<open>
  C9 as stated fails for row id 0: on a pool with a free slot, \<open>Update\<close> with row id 0
  does not panic; it writes the data and the updater's id into the first free slot and
  leaves its row id 0.
\<close>

theorem Update_row_zero_counterexample:
  "(case run [OpBegin (Some 0), OpUpdate (Some 0) 0 ''x''] CreateTrxContext of
      Inl e \<Rightarrow> False
    | Inr c \<Rightarrow> rowID (dataPool c ! 0) = 0 \<and> rec_data (dataPool c ! 0) = ''x'' \<and>
               rec_trxID (dataPool c ! 0) = 1 \<and> rollPtr (dataPool c ! 0) = Some 0)"
  by code_simp


subsection \<open>C6: the undo chain after repeated updates\<close>

text \<open>
  C6 fails on the code.  \<open>Update\<close> never marks the undo entry it takes (its \<open>rowID\<close>
  stays 0), so \<open>allocteUndo\<close> returns entry 0 again.  After one \<open>Insert\<close> and two
  \<open>Update\<close>s of the same row, undo entry 0 holds the second version, points to itself,
  and the first version is in no undo entry.
\<close>

theorem Update_twice_cycle:
  "(case run [OpBegin (Some 0), OpInsert (Some 0) ''v1'', OpUpdate (Some 0) 1 ''v2''] CreateTrxContext of
      Inl e \<Rightarrow> False
    | Inr c1 \<Rightarrow>
        rollPtr (dataPool c1 ! 0) = Some 0 \<and> rec_data (undo c1 ! 0) = ''v1'' \<and>
        rollPtr (undo c1 ! 0) = None \<and> allocteUndo c1 = Inr (Some 0) \<and>
        (case run [OpUpdate (Some 0) 1 ''v3''] c1 of
           Inl e \<Rightarrow> False
         | Inr c2 \<Rightarrow>
             rec_data (dataPool c2 ! 0) = ''v3'' \<and> rollPtr (dataPool c2 ! 0) = Some 0 \<and>
             rec_data (undo c2 ! 0) = ''v2'' \<and> rollPtr (undo c2 ! 0) = Some 0 \<and>
             ''v1'' \<notin> set (map rec_data (undo c2))))"
  by code_simp

section \<open>Properties of the B+ tree\<close>

subsection \<open>Running the code on the tree image\<close>

lemma mt_get_set:
  "a < 2 ^ d \<Longrightarrow> x < 2 ^ d \<Longrightarrow> mt_get (mt_set t d a v) d x = (if x = a then v else mt_get t d x)"
proof (induction t d a v arbitrary: x rule: mt_set.induct)
  case (1 t a v)
  then show ?case by simp
next
  case (2 w d a v)
  then show ?case by (auto simp: not_less) 
next
  case (3 l r d a v)
  then show ?case by (auto simp: not_less)
qed

lemma length_mt_list: "length (mt_list t d) = 2 ^ d"
  by (simp add: mt_list_def)

lemma nth_mt_list: "a < 2 ^ d \<Longrightarrow> mt_list t d ! a = mt_get t d a"
  by (simp add: mt_list_def)

lemma update_mt_list: "a < 2 ^ d \<Longrightarrow> (mt_list t d)[a := v] = mt_list (mt_set t d a v) d"
  by (rule nth_equalityI) (auto simp: length_mt_list nth_mt_list mt_get_set nth_list_update)

lemma replicate_mt_list: "replicate (2 ^ d) 0 = mt_list (MByte 0) d"
  by (rule nth_equalityI) (auto simp: length_mt_list nth_mt_list)

lemma length_mt_list_14 [bt_eval]: "length (mt_list t 14) = 16384"
  by (simp add: length_mt_list)

lemma nth_mt_list_14 [bt_eval]: "a < 16384 \<Longrightarrow> mt_list t 14 ! a = mt_get t 14 a"
  using nth_mt_list [of a 14 t] by simp

lemma update_mt_list_14 [bt_eval]:
  "a < 16384 \<Longrightarrow> (mt_list t 14)[a := v] = mt_list (mt_set t 14 a v) 14"
  using update_mt_list [of a 14 t v] by simp

lemma replicate_mt_list_14: "replicate 16384 0 = mt_list (MByte 0) 14"
  using replicate_mt_list [of 14] by simp

lemma hide_cong: "hide t = hide t"
  by (rule refl)

lemma mkN_hide [bt_eval]: "mkN l r = MNode (hide l) (hide r)"
  by (simp add: mkN_def hide_def)

lemma mt_get_14 [bt_eval]:
  "mt_get (MNode (hide l) (hide r)) 14 a = (if a < 8192 then mt_get l 13 a else mt_get r 13 (a - 8192))"
  using mt_get.simps(3) [of l r 13 a] by (simp add: hide_def)

lemma mt_set_N_14 [bt_eval]:
  "mt_set (MNode (hide l) (hide r)) 14 a v =
     (if a < 8192 then mkN (mt_set l 13 a v) r else mkN l (mt_set r 13 (a - 8192) v))"
  using mt_set.simps(3) [of l r 13 a v] by (simp add: hide_def mkN_def)

lemma mt_set_B_14 [bt_eval]:
  "mt_set (MByte w) 14 a v =
     (if a < 8192 then mkN (mt_set (MByte w) 13 a v) (MByte w) else mkN (MByte w) (mt_set (MByte w) 13 (a - 8192) v))"
  using mt_set.simps(2) [of w 13 a v] by (simp add: mkN_def)

lemma mt_get_13 [bt_eval]:
  "mt_get (MNode (hide l) (hide r)) 13 a = (if a < 4096 then mt_get l 12 a else mt_get r 12 (a - 4096))"
  using mt_get.simps(3) [of l r 12 a] by (simp add: hide_def)

lemma mt_set_N_13 [bt_eval]:
  "mt_set (MNode (hide l) (hide r)) 13 a v =
     (if a < 4096 then mkN (mt_set l 12 a v) r else mkN l (mt_set r 12 (a - 4096) v))"
  using mt_set.simps(3) [of l r 12 a v] by (simp add: hide_def mkN_def)

lemma mt_set_B_13 [bt_eval]:
  "mt_set (MByte w) 13 a v =
     (if a < 4096 then mkN (mt_set (MByte w) 12 a v) (MByte w) else mkN (MByte w) (mt_set (MByte w) 12 (a - 4096) v))"
  using mt_set.simps(2) [of w 12 a v] by (simp add: mkN_def)

lemma mt_get_12 [bt_eval]:
  "mt_get (MNode (hide l) (hide r)) 12 a = (if a < 2048 then mt_get l 11 a else mt_get r 11 (a - 2048))"
  using mt_get.simps(3) [of l r 11 a] by (simp add: hide_def)

lemma mt_set_N_12 [bt_eval]:
  "mt_set (MNode (hide l) (hide r)) 12 a v =
     (if a < 2048 then mkN (mt_set l 11 a v) r else mkN l (mt_set r 11 (a - 2048) v))"
  using mt_set.simps(3) [of l r 11 a v] by (simp add: hide_def mkN_def)

lemma mt_set_B_12 [bt_eval]:
  "mt_set (MByte w) 12 a v =
     (if a < 2048 then mkN (mt_set (MByte w) 11 a v) (MByte w) else mkN (MByte w) (mt_set (MByte w) 11 (a - 2048) v))"
  using mt_set.simps(2) [of w 11 a v] by (simp add: mkN_def)

lemma mt_get_11 [bt_eval]:
  "mt_get (MNode (hide l) (hide r)) 11 a = (if a < 1024 then mt_get l 10 a else mt_get r 10 (a - 1024))"
  using mt_get.simps(3) [of l r 10 a] by (simp add: hide_def)

lemma mt_set_N_11 [bt_eval]:
  "mt_set (MNode (hide l) (hide r)) 11 a v =
     (if a < 1024 then mkN (mt_set l 10 a v) r else mkN l (mt_set r 10 (a - 1024) v))"
  using mt_set.simps(3) [of l r 10 a v] by (simp add: hide_def mkN_def)

lemma mt_set_B_11 [bt_eval]:
  "mt_set (MByte w) 11 a v =
     (if a < 1024 then mkN (mt_set (MByte w) 10 a v) (MByte w) else mkN (MByte w) (mt_set (MByte w) 10 (a - 1024) v))"
  using mt_set.simps(2) [of w 10 a v] by (simp add: mkN_def)

lemma mt_get_10 [bt_eval]:
  "mt_get (MNode (hide l) (hide r)) 10 a = (if a < 512 then mt_get l 9 a else mt_get r 9 (a - 512))"
  using mt_get.simps(3) [of l r 9 a] by (simp add: hide_def)

lemma mt_set_N_10 [bt_eval]:
  "mt_set (MNode (hide l) (hide r)) 10 a v =
     (if a < 512 then mkN (mt_set l 9 a v) r else mkN l (mt_set r 9 (a - 512) v))"
  using mt_set.simps(3) [of l r 9 a v] by (simp add: hide_def mkN_def)

lemma mt_set_B_10 [bt_eval]:
  "mt_set (MByte w) 10 a v =
     (if a < 512 then mkN (mt_set (MByte w) 9 a v) (MByte w) else mkN (MByte w) (mt_set (MByte w) 9 (a - 512) v))"
  using mt_set.simps(2) [of w 9 a v] by (simp add: mkN_def)

lemma mt_get_9 [bt_eval]:
  "mt_get (MNode (hide l) (hide r)) 9 a = (if a < 256 then mt_get l 8 a else mt_get r 8 (a - 256))"
  using mt_get.simps(3) [of l r 8 a] by (simp add: hide_def)

lemma mt_set_N_9 [bt_eval]:
  "mt_set (MNode (hide l) (hide r)) 9 a v =
     (if a < 256 then mkN (mt_set l 8 a v) r else mkN l (mt_set r 8 (a - 256) v))"
  using mt_set.simps(3) [of l r 8 a v] by (simp add: hide_def mkN_def)

lemma mt_set_B_9 [bt_eval]:
  "mt_set (MByte w) 9 a v =
     (if a < 256 then mkN (mt_set (MByte w) 8 a v) (MByte w) else mkN (MByte w) (mt_set (MByte w) 8 (a - 256) v))"
  using mt_set.simps(2) [of w 8 a v] by (simp add: mkN_def)

lemma mt_get_8 [bt_eval]:
  "mt_get (MNode (hide l) (hide r)) 8 a = (if a < 128 then mt_get l 7 a else mt_get r 7 (a - 128))"
  using mt_get.simps(3) [of l r 7 a] by (simp add: hide_def)

lemma mt_set_N_8 [bt_eval]:
  "mt_set (MNode (hide l) (hide r)) 8 a v =
     (if a < 128 then mkN (mt_set l 7 a v) r else mkN l (mt_set r 7 (a - 128) v))"
  using mt_set.simps(3) [of l r 7 a v] by (simp add: hide_def mkN_def)

lemma mt_set_B_8 [bt_eval]:
  "mt_set (MByte w) 8 a v =
     (if a < 128 then mkN (mt_set (MByte w) 7 a v) (MByte w) else mkN (MByte w) (mt_set (MByte w) 7 (a - 128) v))"
  using mt_set.simps(2) [of w 7 a v] by (simp add: mkN_def)

lemma mt_get_7 [bt_eval]:
  "mt_get (MNode (hide l) (hide r)) 7 a = (if a < 64 then mt_get l 6 a else mt_get r 6 (a - 64))"
  using mt_get.simps(3) [of l r 6 a] by (simp add: hide_def)

lemma mt_set_N_7 [bt_eval]:
  "mt_set (MNode (hide l) (hide r)) 7 a v =
     (if a < 64 then mkN (mt_set l 6 a v) r else mkN l (mt_set r 6 (a - 64) v))"
  using mt_set.simps(3) [of l r 6 a v] by (simp add: hide_def mkN_def)

lemma mt_set_B_7 [bt_eval]:
  "mt_set (MByte w) 7 a v =
     (if a < 64 then mkN (mt_set (MByte w) 6 a v) (MByte w) else mkN (MByte w) (mt_set (MByte w) 6 (a - 64) v))"
  using mt_set.simps(2) [of w 6 a v] by (simp add: mkN_def)

lemma mt_get_6 [bt_eval]:
  "mt_get (MNode (hide l) (hide r)) 6 a = (if a < 32 then mt_get l 5 a else mt_get r 5 (a - 32))"
  using mt_get.simps(3) [of l r 5 a] by (simp add: hide_def)

lemma mt_set_N_6 [bt_eval]:
  "mt_set (MNode (hide l) (hide r)) 6 a v =
     (if a < 32 then mkN (mt_set l 5 a v) r else mkN l (mt_set r 5 (a - 32) v))"
  using mt_set.simps(3) [of l r 5 a v] by (simp add: hide_def mkN_def)

lemma mt_set_B_6 [bt_eval]:
  "mt_set (MByte w) 6 a v =
     (if a < 32 then mkN (mt_set (MByte w) 5 a v) (MByte w) else mkN (MByte w) (mt_set (MByte w) 5 (a - 32) v))"
  using mt_set.simps(2) [of w 5 a v] by (simp add: mkN_def)

lemma mt_get_5 [bt_eval]:
  "mt_get (MNode (hide l) (hide r)) 5 a = (if a < 16 then mt_get l 4 a else mt_get r 4 (a - 16))"
  using mt_get.simps(3) [of l r 4 a] by (simp add: hide_def)

lemma mt_set_N_5 [bt_eval]:
  "mt_set (MNode (hide l) (hide r)) 5 a v =
     (if a < 16 then mkN (mt_set l 4 a v) r else mkN l (mt_set r 4 (a - 16) v))"
  using mt_set.simps(3) [of l r 4 a v] by (simp add: hide_def mkN_def)

lemma mt_set_B_5 [bt_eval]:
  "mt_set (MByte w) 5 a v =
     (if a < 16 then mkN (mt_set (MByte w) 4 a v) (MByte w) else mkN (MByte w) (mt_set (MByte w) 4 (a - 16) v))"
  using mt_set.simps(2) [of w 4 a v] by (simp add: mkN_def)

lemma mt_get_4 [bt_eval]:
  "mt_get (MNode (hide l) (hide r)) 4 a = (if a < 8 then mt_get l 3 a else mt_get r 3 (a - 8))"
  using mt_get.simps(3) [of l r 3 a] by (simp add: hide_def)

lemma mt_set_N_4 [bt_eval]:
  "mt_set (MNode (hide l) (hide r)) 4 a v =
     (if a < 8 then mkN (mt_set l 3 a v) r else mkN l (mt_set r 3 (a - 8) v))"
  using mt_set.simps(3) [of l r 3 a v] by (simp add: hide_def mkN_def)

lemma mt_set_B_4 [bt_eval]:
  "mt_set (MByte w) 4 a v =
     (if a < 8 then mkN (mt_set (MByte w) 3 a v) (MByte w) else mkN (MByte w) (mt_set (MByte w) 3 (a - 8) v))"
  using mt_set.simps(2) [of w 3 a v] by (simp add: mkN_def)

lemma mt_get_3 [bt_eval]:
  "mt_get (MNode (hide l) (hide r)) 3 a = (if a < 4 then mt_get l 2 a else mt_get r 2 (a - 4))"
  using mt_get.simps(3) [of l r 2 a] by (simp add: hide_def)

lemma mt_set_N_3 [bt_eval]:
  "mt_set (MNode (hide l) (hide r)) 3 a v =
     (if a < 4 then mkN (mt_set l 2 a v) r else mkN l (mt_set r 2 (a - 4) v))"
  using mt_set.simps(3) [of l r 2 a v] by (simp add: hide_def mkN_def)

lemma mt_set_B_3 [bt_eval]:
  "mt_set (MByte w) 3 a v =
     (if a < 4 then mkN (mt_set (MByte w) 2 a v) (MByte w) else mkN (MByte w) (mt_set (MByte w) 2 (a - 4) v))"
  using mt_set.simps(2) [of w 2 a v] by (simp add: mkN_def)

lemma mt_get_2 [bt_eval]:
  "mt_get (MNode (hide l) (hide r)) 2 a =
     (if a < 2 then mt_get l (Suc 0) a else mt_get r (Suc 0) (a - 2))"
  by (simp add: hide_def numeral_2_eq_2)

lemma mt_set_N_2 [bt_eval]:
  "mt_set (MNode (hide l) (hide r)) 2 a v =
     (if a < 2 then mkN (mt_set l (Suc 0) a v) r else mkN l (mt_set r (Suc 0) (a - 2) v))"
  by (simp add: hide_def mkN_def numeral_2_eq_2)

lemma mt_set_B_2 [bt_eval]:
  "mt_set (MByte w) 2 a v =
     (if a < 2 then mkN (mt_set (MByte w) (Suc 0) a v) (MByte w)
      else mkN (MByte w) (mt_set (MByte w) (Suc 0) (a - 2) v))"
  by (simp add: mkN_def numeral_2_eq_2)

lemma mt_get_1 [bt_eval]:
  "mt_get (MNode (hide l) (hide r)) (Suc 0) a = (if a < 1 then mt_get l 0 a else mt_get r 0 (a - 1))"
  by (simp add: hide_def)

lemma mt_set_N_1 [bt_eval]:
  "mt_set (MNode (hide l) (hide r)) (Suc 0) a v =
     (if a < 1 then mkN (mt_set l 0 a v) r else mkN l (mt_set r 0 (a - 1) v))"
  by (simp add: hide_def mkN_def)

lemma mt_set_B_1 [bt_eval]:
  "mt_set (MByte w) (Suc 0) a v =
     (if a < 1 then mkN (mt_set (MByte w) 0 a v) (MByte w) else mkN (MByte w) (mt_set (MByte w) 0 (a - 1) v))"
  by (simp add: mkN_def)

lemmas [bt_eval] =
  slice_sub_def slice_from_def index_get_def index_set_def byte_of_def bytes32_def bytes64_def
  Uint32_def PutUint32_def Uint64_def PutUint64_def Uint32_cell_def
  setInt32_def getInt32_def setInt64_def getInt64_def
  getPageData_def getPageInt32_def setPageInt32_def setPageNo_def getPageNo_def
  setNext_def getNext_def setNumberOfKey_def getNumberOfKey_def setNodeType_def getNodeType_def
  setUsed_def isUsed_def setParent_def getParent_def setKey_def getKey_def setCellPtr_def
  getCellPtr_def setUsablePtr_def getUsablePtr_def getMaxKey_def getKeyIndex_def
  blockCopy_from_page_def blockCopy_to_page_def marshal_def lshift_def rshift_def shift_def
  shiftCellPtr_def getKeyCell_def getKeyPayload_def getChildByKey_def getChildByIndex_def
  getChild_def cell_len_def deleteCell_def insertOrUpdateCell_def setChild_def setChildParent_def
  allocte_def copy_bytes_def copy_def search_def updateKey_def insertAndNotSplit_def
  insertAndSplitRoot_def insertAndSplitKey_def Insert_def Get_def ceil_def
  Let_def

lemma read_bytes_numeral [bt_eval]:
  "read_bytes m a (numeral k) = m ! a # read_bytes m (Suc a) (pred_numeral k)"
  by (simp add: numeral_eq_Suc)

lemma CreateTree_loop_numeral [bt_eval]:
  "CreateTree_loop tree i (numeral k) =
     do { t1 \<leftarrow> setPageNo tree (of_int i) (of_int i);
          t2 \<leftarrow> setUsed t1 (of_int i) nodeUnused;
          t3 \<leftarrow> setUsablePtr t2 (of_int i) offsetPayload;
          CreateTree_loop t3 (i + 1) (pred_numeral k) }"
  by (simp add: numeral_eq_Suc)

lemma getKeyIndex_loop_numeral [bt_eval]:
  "getKeyIndex_loop b page key i (numeral nk) =
     do { ikey \<leftarrow> getKey b page i;
          if ikey = key then Some i else getKeyIndex_loop b page key (i + 1) (pred_numeral nk) }"
  by (simp add: numeral_eq_Suc)

lemma lshift_loop_numeral [bt_eval]:
  "lshift_loop m d src shiftSize i (numeral nk) =
     do { x \<leftarrow> index_get m d (src + i);
          m' \<leftarrow> index_set m d (src - shiftSize + i) x;
          lshift_loop m' d src shiftSize (i + 1) (pred_numeral nk) }"
  by (simp add: numeral_eq_Suc)

lemma rshift_loop_numeral [bt_eval]:
  "rshift_loop m d src shiftSize (numeral nk) =
     do { x \<leftarrow> index_get m d (src + int (pred_numeral nk));
          m' \<leftarrow> index_set m d (src + shiftSize + int (pred_numeral nk)) x;
          rshift_loop m' d src shiftSize (pred_numeral nk) }"
  by (simp add: numeral_eq_Suc)

lemma shiftCellPtr_loop_numeral [bt_eval]:
  "shiftCellPtr_loop b page cellptr shiftSize i (numeral nk) =
     do { icellPtr \<leftarrow> getCellPtr b page i;
          b' \<leftarrow> (if icellPtr > 0 \<and> icellPtr < cellptr
                 then setCellPtr b page i (of_int (uint icellPtr + shiftSize))
                 else Some b);
          shiftCellPtr_loop b' page cellptr shiftSize (i + 1) (pred_numeral nk) }"
  by (simp add: numeral_eq_Suc)

lemma setChildParent_loop_numeral [bt_eval]:
  "setChildParent_loop b page i (numeral nk) =
     do { ichild \<leftarrow> getChild b page i;
          b' \<leftarrow> setParent b ichild page;
          setChildParent_loop b' page (i + 1) (pred_numeral nk) }"
  by (simp add: numeral_eq_Suc)

lemma allocte_loop_numeral [bt_eval]:
  "allocte_loop b i (numeral nk) =
     do { u \<leftarrow> isUsed b (of_int i);
          if \<not> u then do { b' \<leftarrow> setUsed b (of_int i) nodeUsed; Some (of_int i, b') }
          else allocte_loop b (i + 1) (pred_numeral nk) }"
  by (simp add: numeral_eq_Suc)

lemma searchInternalNode_loop_numeral [bt_eval]:
  "searchInternalNode_loop b pageNo key i (numeral nk) k =
     do { nodeKey \<leftarrow> getKey b pageNo i;
          if nodeKey \<ge> key then Some i
          else searchInternalNode_loop b pageNo key (i + 1) (pred_numeral nk) k }"
  by (simp add: numeral_eq_Suc)

lemma updateKey_loop_numeral [bt_eval]:
  "updateKey_loop b pageNo oldKey newKey i (numeral nk) =
     do { k \<leftarrow> getKey b pageNo i;
          b' \<leftarrow> (if k = oldKey then setKey b pageNo i newKey else Some b);
          updateKey_loop b' pageNo oldKey newKey (i + 1) (pred_numeral nk) }"
  by (simp add: numeral_eq_Suc)

lemma insertAndNotSplit_loop_numeral [bt_eval]:
  "insertAndNotSplit_loop b pageNo key (numeral nk) k =
     do { ikey \<leftarrow> getKey b pageNo (int (pred_numeral nk));
          icellptr \<leftarrow> getCellPtr b pageNo (int (pred_numeral nk));
          if ikey < key then Some (int (pred_numeral nk) + 1, b)
          else do {
            b1 \<leftarrow> setKey b pageNo (int (pred_numeral nk) + 1) ikey;
            b2 \<leftarrow> setCellPtr b1 pageNo (int (pred_numeral nk) + 1) icellptr;
            b3 \<leftarrow> setCellPtr b2 pageNo (int (pred_numeral nk)) 0;
            insertAndNotSplit_loop b3 pageNo key (pred_numeral nk) (int (pred_numeral nk))
          }
        }"
  by (simp add: numeral_eq_Suc)

lemma insertAndSplitKey_loop_numeral [bt_eval]:
  "insertAndSplitKey_loop b pageNo rightPageNo key child payload (numeral nk) l r k =
     do { ikey \<leftarrow> getKey b pageNo (int (pred_numeral nk));
          ichild \<leftarrow> getChild b pageNo (int (pred_numeral nk));
          ipayload \<leftarrow> getKeyPayload b pageNo ikey;
          icellptr \<leftarrow> getCellPtr b pageNo (int (pred_numeral nk));
          (l1, r1, k1, b1) \<leftarrow>
            (if k > ikey then
               (if r > 0 then do {
                  let r = r - 1;
                  b' \<leftarrow> setKey b rightPageNo r key;
                  b'' \<leftarrow> setChild b' rightPageNo r child payload;
                  Some (l, r, 0, b'')
                } else do {
                  let l = l - 1;
                  b' \<leftarrow> setKey b pageNo l key;
                  b'' \<leftarrow> setChild b' pageNo l child payload;
                  Some (l, r, 0, b'')
                })
             else Some (l, r, k, b));
          (l2, r2, b2) \<leftarrow>
            (if r1 > 0 then do {
               let r = r1 - 1;
               b' \<leftarrow> setKey b1 rightPageNo r ikey;
               b'' \<leftarrow> setChild b' rightPageNo r ichild ipayload;
               b''' \<leftarrow> setKey b'' pageNo (int (pred_numeral nk)) 0;
               b'''' \<leftarrow> deleteCell b''' pageNo (int (pred_numeral nk));
               Some (l1, r, b'''')
             } else do {
               let l = l1 - 1;
               b' \<leftarrow> setKey b1 pageNo l ikey;
               b'' \<leftarrow> setCellPtr b' pageNo l icellptr;
               Some (l, r1, b'')
             });
          insertAndSplitKey_loop b2 pageNo rightPageNo key child payload (pred_numeral nk) l2 r2 k1
        }"
  by (simp add: numeral_eq_Suc)

lemmas [bt_eval] = searchInternalNode.simps insertKey.simps

lemmas evc = bind_option_cong_code option.case_cong_weak prod.case_cong_weak let_weak_cong hide_cong

subsection \<open>C3: Get\<close>

lemma slot_keys_loop_numeral [bt_eval]:
  "slot_keys_loop b page i (numeral nk) =
     do { k \<leftarrow> getKey b page i; ks \<leftarrow> slot_keys_loop b page (i + 1) (pred_numeral nk); Some (k # ks) }"
  by (simp add: numeral_eq_Suc)

lemma getKeyIndex_loop_absent:
  "(\<forall>j < n. \<exists>k. getKey b page (i + int j) = Some k \<and> k \<noteq> key) \<Longrightarrow>
   getKeyIndex_loop b page key i n = Some (- 1)"
proof (induction n arbitrary: i)
  case 0
  then show ?case by simp
next
  case (Suc n)
  from Suc.prems [rule_format, of 0] obtain k where k: "getKey b page i = Some k" "k \<noteq> key"
    by auto
  have "\<forall>j < n. \<exists>k. getKey b page (i + 1 + int j) = Some k \<and> k \<noteq> key"
  proof (intro allI impI)
    fix j assume "j < n"
    then have "Suc j < Suc n" by simp
    moreover have "i + int (Suc j) = i + 1 + int j" by simp
    ultimately show "\<exists>k. getKey b page (i + 1 + int j) = Some k \<and> k \<noteq> key"
      using Suc.prems by metis
  qed
  from Suc.IH [OF this] k show ?case by simp
qed

text \<open>
  C3.  Let \<open>search\<close> locate the leaf \<open>page\<close> for \<open>key\<close>.  When every live slot of the
  leaf holds another key, \<open>getKeyCell\<close> returns nil and \<open>Get\<close> does not return absent:
  it panics, slicing the nil cell at 8.  When \<open>getKeyCell\<close> returns a cell of at least 8
  bytes, \<open>Get\<close> returns the bytes of the cell after the first 8.
\<close>

theorem Get_absent_key_panics:
  assumes "search b key = Some page"
    and "getNodeType b page = Some nodeTypeLeaf"
    and "getNumberOfKey b page = Some n"
  shows "((\<forall>i. 0 \<le> i \<and> i < uint n \<longrightarrow> (\<exists>k. getKey b page i = Some k \<and> k \<noteq> key))
            \<longrightarrow> getKeyCell b page key = Some None \<and> Get b key = None)
       \<and> (\<forall>c. getKeyCell b page key = Some (Some c) \<and> 8 \<le> length c
            \<longrightarrow> Get b key = Some (Some (drop 8 c)))"
proof (intro conjI impI allI)
  assume a: "\<forall>i. 0 \<le> i \<and> i < uint n \<longrightarrow> (\<exists>k. getKey b page i = Some k \<and> k \<noteq> key)"
  have "\<forall>j < nat (uint n). \<exists>k. getKey b page (0 + int j) = Some k \<and> k \<noteq> key"
  proof (intro allI impI)
    fix j assume "j < nat (uint n)"
    then have "0 \<le> int j \<and> int j < uint n" by linarith
    with a show "\<exists>k. getKey b page (0 + int j) = Some k \<and> k \<noteq> key" by simp
  qed
  then have "getKeyIndex_loop b page key 0 (nat (uint n)) = Some (- 1)"
    by (rule getKeyIndex_loop_absent)
  with assms(3) have "getKeyIndex b page key = Some (- 1)"
    by (simp add: getKeyIndex_def)
  then show c: "getKeyCell b page key = Some None"
    by (simp add: getKeyCell_def)
  with assms(1,2) show "Get b key = None"
    by (simp add: Get_def getKeyPayload_def)
next
  fix c
  assume "getKeyCell b page key = Some (Some c) \<and> 8 \<le> length c"
  with assms(1,2) show "Get b key = Some (Some (drop 8 c))"
    by (simp add: Get_def getKeyPayload_def)
qed

lemma the_bind_obs: "x \<bind> (\<lambda>b. Some (f b)) = Some v \<Longrightarrow> f (the x) = v"
  by (cases x) auto

lemma tree_a_obs:
  "do { b \<leftarrow> do { b0 \<leftarrow> CreateTree 3; Insert b0 10 (Some [97]) };
        Some (search b 7, getNodeType b 1, getNumberOfKey b 1, getKey b 1 0,
              search b 10, getKeyCell b 1 10) }
   = Some (Some 1, Some 2, Some 1, Some 10, Some 1, Some (Some [0, 0, 0, 0, 0, 0, 0, 1, 97]))"
  by (simp add: CreateTree_def replicate_mt_list_14 bt_eval
      del: mt_get.simps(2-3) mt_set.simps(2-3) cong: evc)

theorem Get_absent_key_panics_witness:
  "search tree_a 7 = Some 1 \<and> getNodeType tree_a 1 = Some nodeTypeLeaf
   \<and> getNumberOfKey tree_a 1 = Some 1 \<and> getKey tree_a 1 0 = Some 10
   \<and> Get tree_a 7 = None
   \<and> search tree_a 10 = Some 1
   \<and> getKeyCell tree_a 1 10 = Some (Some [0, 0, 0, 0, 0, 0, 0, 1, 97])
   \<and> Get tree_a 10 = Some (Some [97])"
proof -
  have obs: "(search tree_a 7, getNodeType tree_a 1, getNumberOfKey tree_a 1, getKey tree_a 1 0,
              search tree_a 10, getKeyCell tree_a 1 10)
   = (Some 1, Some 2, Some 1, Some 10, Some 1, Some (Some [0, 0, 0, 0, 0, 0, 0, 1, 97]))"
    unfolding tree_a_def by (rule the_bind_obs [OF tree_a_obs])
  then have s7: "search tree_a 7 = Some 1" and t: "getNodeType tree_a 1 = Some nodeTypeLeaf"
    and n: "getNumberOfKey tree_a 1 = Some 1" and k: "getKey tree_a 1 0 = Some 10"
    and s10: "search tree_a 10 = Some 1"
    and c: "getKeyCell tree_a 1 10 = Some (Some [0, 0, 0, 0, 0, 0, 0, 1, 97])"
    by simp_all
  have absent: "\<forall>i. 0 \<le> i \<and> i < uint (1 :: uint32) \<longrightarrow> (\<exists>k. getKey tree_a 1 i = Some k \<and> k \<noteq> 7)"
  proof (intro allI impI)
    fix i :: int assume "0 \<le> i \<and> i < uint (1 :: uint32)"
    then have "i = 0" by simp
    with k show "\<exists>k. getKey tree_a 1 i = Some k \<and> k \<noteq> 7" by simp
  qed
  from Get_absent_key_panics [OF s7 t n] absent have g7: "Get tree_a 7 = None" by blast
  from Get_absent_key_panics [OF s10 t n] c have g10: "Get tree_a 10 = Some (Some [97])" by simp
  from s7 t n k g7 s10 c g10 show ?thesis by simp
qed

subsection \<open>C2: insert and get\<close>

text \<open>
  C2 fails on the code.  In a tree of order 3, after the keys 10, 20, 30 with the payloads
  \<open>"a"\<close>, \<open>"b"\<close>, \<open>"c"\<close>, \<open>Get 10\<close> returns \<open>"a"\<close>; after the key 5 with the payload
  \<open>"d"\<close>, which the split places in the left half, \<open>Get 10\<close> returns \<open>"d"\<close>.  The slot
  the new key is written to still holds the cell pointer of the key that was moved one
  slot up, so \<open>insertOrUpdateCell\<close> overwrites that key's cell.
\<close>

theorem Insert_into_left_half_overwrites:
  "do { b0 \<leftarrow> CreateTree 3;
        b1 \<leftarrow> Insert b0 10 (Some [97]);
        b2 \<leftarrow> Insert b1 20 (Some [98]);
        b3 \<leftarrow> Insert b2 30 (Some [99]);
        b4 \<leftarrow> Insert b3 5 (Some [100]);
        Some (Get b3 10, Get b4 10, Get b4 5, Get b4 20, Get b4 30) }
   = Some (Some (Some [97]), Some (Some [100]), Some (Some [100]), Some (Some [98]),
           Some (Some [99]))"
  by (simp add: CreateTree_def replicate_mt_list_14 bt_eval
      del: mt_get.simps(2-3) mt_set.simps(2-3) cong: evc)

subsection \<open>C5: the root after a split\<close>

text \<open>
  C5 fails on the code.  With the payload \<open>00 00 00 02 00 00 00 00 00\<close> for the key 5, the
  same insertion splits the root: afterwards the root is at page 1, internal, with the
  two entries \<open>10 \<rightarrow> page 3\<close> and \<open>30 \<rightarrow> page 2\<close>, and the parent header of page 3 is the root,
  but the parent header of the right child, page 2, is 3.  Both slots of the left leaf
  point into the new cell, where \<open>setChildParent\<close> reads the child number 2.
\<close>

theorem root_split_parent_header:
  "do { b0 \<leftarrow> CreateTree 3;
        b1 \<leftarrow> Insert b0 10 (Some [97]);
        b2 \<leftarrow> Insert b1 20 (Some [98]);
        b3 \<leftarrow> Insert b2 30 (Some [99]);
        b4 \<leftarrow> Insert b3 5 (Some [0, 0, 0, 2, 0, 0, 0, 0, 0]);
        Some (getNodeType b3 1, getNodeType b4 1, getNumberOfKey b4 1, slot_keys b4 1,
              getChild b4 1 0, getChild b4 1 1, getParent b4 3, getParent b4 2) }
   = Some (Some nodeTypeLeaf, Some nodeTypeInternal, Some 2, Some [10, 30],
           Some 3, Some 2, Some 1, Some 3)"
  by (simp add: CreateTree_def replicate_mt_list_14 bt_eval slot_keys_def
      del: mt_get.simps(2-3) mt_set.simps(2-3) cong: evc)

subsection \<open>C7: the keys of the two pages after a split\<close>

text \<open>
  C7 fails on the code for the key 0.  The leaf holds the keys 10, 20, 30 (order 3).
  \<open>insertAndSplitKey\<close> with the key 0 returns the right page 2 with the keys 20, 30 and
  leaves the keys 10, 10 in the left page: the key 0 is in neither page.  After the whole
  \<open>Insert\<close> the two leaves hold the same keys, and \<open>Get 0\<close> panics.  The loop uses
  \<open>k = 0\<close> to record that the new key has been placed.
\<close>

theorem split_loses_key_zero:
  "do { b0 \<leftarrow> CreateTree 3;
        b1 \<leftarrow> Insert b0 10 (Some [97]);
        b2 \<leftarrow> Insert b1 20 (Some [98]);
        b3 \<leftarrow> Insert b2 30 (Some [99]);
        (r, b4) \<leftarrow> insertAndSplitKey b3 1 0 0 (Some [122]);
        b5 \<leftarrow> Insert b3 0 (Some [122]);
        Some (getNumberOfKey b3 1, slot_keys b3 1, r,
              slot_keys b4 1, slot_keys b4 r, getNext b4 1,
              slot_keys b5 3, slot_keys b5 2, Get b5 0) }
   = Some (Some 3, Some [10, 20, 30], 2,
           Some [10, 10], Some [20, 30], Some 2,
           Some [10, 10], Some [20, 30], None)"
  by (simp add: CreateTree_def replicate_mt_list_14 bt_eval slot_keys_def
      del: mt_get.simps(2-3) mt_set.simps(2-3) cong: evc)

end
